theory Spec2Isabelle
  imports Complex_Main "HOL-Library.AList"
begin

section \<open>The audio system of audiosystem.js\<close>

text \<open>
  The class \<^verbatim>\<open>AudioSystem\<close> keeps all of its state in private static fields and
  drives the browser's Web Audio objects. The embedding makes both explicit: the static
  fields are one record that every operation takes and returns, and the gain and source
  nodes are records holding exactly what the script has told the platform (values
  written, automation events scheduled, connections made, start and stop requests).
  The platform's calls fail where the Web Audio API says they do: a time or an offset
  that is negative, a ramp to zero, a second \<^verbatim>\<open>start\<close>, a \<^verbatim>\<open>stop\<close> before
  \<^verbatim>\<open>start\<close>.

  JavaScript numbers are modelled as \<^typ>\<open>real\<close>, with NaN and the infinities left out:
  the comparisons of the source are those of the reals. The one product the source
  computes, \<^verbatim>\<open>sound.baseVolume * volume\<close>, is a multiplication of doubles, which
  rounds and can underflow to zero; it is an argument \<open>product\<close> of the model, about
  which nothing is assumed. Objects that are shared by reference (a sound's record, a
  playing instance) live in two heaps, lists indexed by the object's identity; the
  collections of the source hold identities. A thrown exception is a value \<open>Inl e\<close>;
  since an exception does not undo the writes made before it, every operation returns
  the state next to its result.
\<close>

subsection \<open>Platform objects\<close>

datatype error = Error string | RangeError | TypeError | InvalidStateError

datatype context_state = Suspended | Running | Closed

datatype audio_node = ContextDestination | ExternalNode nat | MasterGain

datatype param_event =
    SetValueAtTime real real
  | ExponentialRampToValueAtTime real real

record gain_node =
  gain_value :: real
  gain_events :: "param_event list"
  gain_output :: "audio_node option"

text \<open>\<^verbatim>\<open>ac.createGain()\<close>: a gain of 1, nothing scheduled, connected to nothing.\<close>

definition createGain :: gain_node where
  "createGain = \<lparr>gain_value = 1, gain_events = [], gain_output = None\<rparr>"

definition connect :: "audio_node \<Rightarrow> gain_node \<Rightarrow> gain_node" where
  "connect dest g = g\<lparr>gain_output := Some dest\<rparr>"

definition disconnect :: "gain_node \<Rightarrow> gain_node" where
  "disconnect g = g\<lparr>gain_output := None\<rparr>"

text \<open>\<^verbatim>\<open>param.setValueAtTime(v, t)\<close>: a range error for a negative time.\<close>

definition setValueAtTime :: "real \<Rightarrow> real \<Rightarrow> gain_node \<Rightarrow> error + gain_node" where
  "setValueAtTime v t g =
     (if t < 0 then Inl RangeError
      else Inr (g\<lparr>gain_events := gain_events g @ [SetValueAtTime v t]\<rparr>))"

text \<open>
  Modelled from the spec: the platform's \<^verbatim>\<open>exponentialRampToValueAtTime\<close> is not part
  of the repository. Section 6 of the specification says of it that exponential ramps
  cannot target zero; the model raises the platform's range error for a target of zero
  (and, as for every scheduling call, for a negative time) and records the ramp
  otherwise, for a negative target too.
\<close>

definition exponentialRampToValueAtTime ::
    "real \<Rightarrow> real \<Rightarrow> gain_node \<Rightarrow> error + gain_node" where
  "exponentialRampToValueAtTime v t g =
     (if v = 0 \<or> t < 0 then Inl RangeError
      else Inr (g\<lparr>gain_events := gain_events g @ [ExponentialRampToValueAtTime v t]\<rparr>))"

type_synonym callback = nat

record ended_handler =
  handler_sound :: nat
  handler_callback :: "callback option"

record audio_buffer =
  buffer_id :: nat
  duration :: real

record source_node =
  source_buffer :: "audio_buffer option"
  source_loop :: bool
  loopStart :: real
  loopEnd :: real
  source_connected :: bool
  onended :: "ended_handler option"
  start_call :: "(real \<times> real) option"
  stop_calls :: "real list"
  has_ended :: bool

text \<open>
  \<^verbatim>\<open>ac.createBufferSource()\<close>. A source node records the requests made of it:
  \<open>start_call\<close> is the \<^verbatim>\<open>start(when, offset)\<close> it accepted, \<open>stop_calls\<close> the
  \<^verbatim>\<open>when\<close> of every \<^verbatim>\<open>stop(when)\<close> it accepted, in order (\<^verbatim>\<open>stop()\<close> is
  \<^verbatim>\<open>stop(0)\<close>: at once), and \<open>has_ended\<close> whether the platform has already dispatched
  its \<^verbatim>\<open>ended\<close> event.
\<close>

definition createBufferSource :: source_node where
  "createBufferSource =
     \<lparr>source_buffer = None, source_loop = False, loopStart = 0, loopEnd = 0,
      source_connected = False, onended = None, start_call = None, stop_calls = [],
      has_ended = False\<rparr>"

text \<open>
  \<^verbatim>\<open>source.start(when, offset)\<close>: an invalid-state error when the source was started
  before, a range error for a negative time or offset; a source that refused to start
  has not been started.
\<close>

definition source_start :: "real \<Rightarrow> real \<Rightarrow> source_node \<Rightarrow> error + source_node" where
  "source_start when' offset src =
     (if start_call src \<noteq> None then Inl InvalidStateError
      else if when' < 0 \<or> offset < 0 then Inl RangeError
      else Inr (src\<lparr>start_call := Some (when', offset)\<rparr>))"

text \<open>
  \<^verbatim>\<open>source.stop(when)\<close>: an invalid-state error when the source was never started, a
  range error for a negative time.
\<close>

definition source_stop :: "real \<Rightarrow> source_node \<Rightarrow> error + source_node" where
  "source_stop when' src =
     (if start_call src = None then Inl InvalidStateError
      else if when' < 0 then Inl RangeError
      else Inr (src\<lparr>stop_calls := stop_calls src @ [when']\<rparr>))"

subsection \<open>The data of the audio system\<close>

text \<open>
  A tag is any value of the caller's, compared with \<^verbatim>\<open>===\<close>; \<open>None\<close> is
  \<^verbatim>\<open>null\<close>, and the tags that are not \<^verbatim>\<open>null\<close> are modelled as strings, as in
  the README. A sound's \<^verbatim>\<open>maxSources\<close> is an integer. An instance owns its source
  node and its gain node, so the two node records are kept inside the instance record;
  the lists of the source hold instance objects, here their identities (indices into
  \<open>instance_heap\<close>), so that a write through one list is seen through the other.
\<close>

type_synonym tag = "string option"

record sound_instance =
  source :: source_node
  gain :: gain_node
  tag :: tag
  stopping :: bool
  startTime :: real

record sound =
  buffer :: audio_buffer
  maxSources :: int
  baseVolume :: real
  instances :: "nat list"

text \<open>
  The static fields. \<open>sounds\<close> is the \<^verbatim>\<open>Map\<close> from a name to a sound object, in
  insertion order; \<open>soundInstances\<close> the global list of live instances. \<open>None\<close> is
  \<^verbatim>\<open>null\<close>. \<open>callback_log\<close> records every call \<^verbatim>\<open>endedCallback(instance)\<close> made to
  a caller's function: the function, the instance, and whether the call returned or
  threw.
\<close>

datatype callback_outcome = Returns | Throws

record audio_system =
  ac :: "context_state option"
  acResuming :: "bool option"
  masterGain :: "gain_node option"
  gainConnected :: "bool option"
  destinationNode :: "audio_node option"
  volume :: real
  sounds :: "(string \<times> nat) list"
  soundInstances :: "nat list"
  sound_heap :: "sound list"
  instance_heap :: "sound_instance list"
  callback_log :: "(callback \<times> nat \<times> callback_outcome) list"

definition initial :: audio_system where
  "initial =
     \<lparr>ac = None, acResuming = None, masterGain = None, gainConnected = None,
      destinationNode = None, volume = 1, sounds = [], soundInstances = [],
      sound_heap = [], instance_heap = [], callback_log = []\<rparr>"

subsection \<open>The context and the global volume\<close>

definition getAudioContext :: "audio_system \<Rightarrow> error + context_state" where
  "getAudioContext s =
     (case ac s of
        None \<Rightarrow> Inl (Error ''Call .createAudioContext first'')
      | Some c \<Rightarrow> Inr c)"

definition setGlobalVolume :: "real \<Rightarrow> audio_system \<Rightarrow> (error + unit) \<times> audio_system" where
  "setGlobalVolume vol s =
     (let s1 = s\<lparr>volume := vol\<rparr> in
      case getAudioContext s1 of
        Inl e \<Rightarrow> (Inl e, s1)
      | Inr _ \<Rightarrow>
          (case masterGain s1 of
             None \<Rightarrow> (Inl TypeError, s1)
           | Some g0 \<Rightarrow>
               let g = g0\<lparr>gain_value := vol\<rparr>;
                   s2 = s1\<lparr>masterGain := Some g\<rparr>
               in if vol \<le> 0 \<and> gainConnected s2 = Some True then
                    (Inr (), s2\<lparr>masterGain := Some (disconnect g), gainConnected := Some False\<rparr>)
                  else if vol > 0 \<and> gainConnected s2 \<noteq> Some True then
                    (case destinationNode s2 of
                       None \<Rightarrow> (Inl TypeError, s2)
                     | Some d \<Rightarrow>
                         (Inr (), s2\<lparr>masterGain := Some (connect d g),
                                      gainConnected := Some True\<rparr>))
                  else (Inr (), s2)))"

text \<open>
  \<^verbatim>\<open>createAudioContext(audioContext, destinationNode)\<close>. \<open>fresh\<close> is the state of the
  context that \<^verbatim>\<open>new AudioContext()\<close> gives when none is passed in.
\<close>

definition createAudioContext ::
    "context_state option \<Rightarrow> audio_node option \<Rightarrow> context_state \<Rightarrow> audio_system
      \<Rightarrow> (error + unit) \<times> audio_system" where
  "createAudioContext audioContext destination fresh s =
     (if ac s \<noteq> None then (Inl (Error ''AudioContext already created''), s)
      else
        let c = (case audioContext of None \<Rightarrow> fresh | Some a \<Rightarrow> a);
            s1 = s\<lparr>ac := Some c, acResuming := Some False,
                   destinationNode :=
                     Some (case destination of None \<Rightarrow> ContextDestination | Some d \<Rightarrow> d),
                   masterGain := Some createGain, gainConnected := Some False\<rparr>
        in setGlobalVolume (volume s1) s1)"

text \<open>A run of calls \<^verbatim>\<open>setGlobalVolume(v)\<close>, one after the other.\<close>

fun setGlobalVolumes :: "real list \<Rightarrow> audio_system \<Rightarrow> audio_system" where
  "setGlobalVolumes [] s = s"
| "setGlobalVolumes (v # vs) s = setGlobalVolumes vs (snd (setGlobalVolume v s))"

text \<open>
  What \<^verbatim>\<open>createAudioContext\<close> leaves behind: a context, a master gain node, a
  destination, and a connection flag that says whether the master gain is connected to
  that destination.
\<close>

definition context_created :: "audio_system \<Rightarrow> bool" where
  "context_created s =
     (ac s \<noteq> None \<and> destinationNode s \<noteq> None \<and>
      (case masterGain s of
         None \<Rightarrow> False
       | Some g \<Rightarrow>
           (gainConnected s = Some True \<and> gain_output g = destinationNode s) \<or>
           (gainConnected s = Some False \<and> gain_output g = None)))"

subsection \<open>Loading sounds\<close>

record sound_info =
  info_path :: string
  info_maxSources :: int
  info_baseVolume :: real

definition soundDirectory :: string where
  "soundDirectory = ''./sounds''"

definition preventCaching :: bool where
  "preventCaching = False"

text \<open>The URL of a sound file; \<open>time\<close> is the text of \<^verbatim>\<open>new Date().getTime()\<close>.\<close>

definition sound_url :: "string \<Rightarrow> sound_info \<Rightarrow> string" where
  "sound_url time info =
     soundDirectory @ ''/'' @ info_path info @ (if preventCaching then ''?time='' @ time else [])"

text \<open>
  How the promise chain of one sound went, as the environment decided it: a step of the
  chain was rejected (the fetch, reading the body, or the decoding; the text is the
  rejection's \<^verbatim>\<open>String(error)\<close>), the response was not \<^verbatim>\<open>ok\<close> (with its status
  text), or the audio data was decoded.
\<close>

datatype load_outcome =
    FetchRejected string
  | ResponseNotOk string
  | BodyRejected string
  | DecodeRejected string
  | Decoded audio_buffer

text \<open>\<^verbatim>\<open>String(new Error(msg))\<close>.\<close>

definition error_string :: "string \<Rightarrow> string" where
  "error_string msg = (if msg = [] then ''Error'' else ''Error: '' @ msg)"

definition load_error :: "string \<Rightarrow> string \<Rightarrow> error" where
  "load_error url err =
     Error (''Error loading sound file '' @ [CHR 0x22] @ url @ [CHR 0x22] @ '', '' @ err)"

text \<open>
  \<^verbatim>\<open>AudioSystem.#sounds.set(name, {buffer, maxSources, baseVolume, instances: []})\<close>:
  a new sound object; the name keeps its place in the map when it is already there.
\<close>

definition set_sound :: "string \<Rightarrow> sound_info \<Rightarrow> audio_buffer \<Rightarrow> audio_system \<Rightarrow> audio_system" where
  "set_sound name info buf s =
     s\<lparr>sounds := AList.update name (length (sound_heap s)) (sounds s),
       sound_heap := sound_heap s @
         [\<lparr>buffer = buf, maxSources = info_maxSources info,
           baseVolume = info_baseVolume info, instances = []\<rparr>]\<rparr>"

text \<open>The chain of one sound of \<^verbatim>\<open>asyncLoadSounds\<close>, run to its end.\<close>

definition load_sound ::
    "string \<Rightarrow> sound_info \<Rightarrow> string \<Rightarrow> load_outcome \<Rightarrow> audio_system
      \<Rightarrow> (error + unit) \<times> audio_system" where
  "load_sound name info time outcome s =
     (let url = sound_url time info in
      case outcome of
        FetchRejected e \<Rightarrow> (Inl (load_error url e), s)
      | ResponseNotOk statusText \<Rightarrow> (Inl (load_error url (error_string statusText)), s)
      | BodyRejected e \<Rightarrow> (Inl (load_error url e), s)
      | DecodeRejected e \<Rightarrow> (Inl (load_error url e), s)
      | Decoded buf \<Rightarrow> (Inr (), set_sound name info buf s))"

record sub_load =
  load_name :: string
  load_info :: sound_info
  load_time :: string
  load_result :: load_outcome

text \<open>
  \<^verbatim>\<open>Promise.all\<close> over the chains, given in the order in which they settle. The
  aggregate promise is rejected with the error of the first chain that is rejected, at
  that moment; it is fulfilled when every chain has been. The state returned is the one
  at the moment the aggregate promise settles.
\<close>

fun promise_all :: "sub_load list \<Rightarrow> audio_system \<Rightarrow> (error + unit) \<times> audio_system" where
  "promise_all [] s = (Inr (), s)"
| "promise_all (l # ls) s =
     (case load_sound (load_name l) (load_info l) (load_time l) (load_result l) s of
        (Inl e, s') \<Rightarrow> (Inl e, s')
      | (Inr _, s') \<Rightarrow> promise_all ls s')"

definition asyncLoadSounds :: "sub_load list \<Rightarrow> audio_system \<Rightarrow> (error + unit) \<times> audio_system" where
  "asyncLoadSounds loads s =
     (case getAudioContext s of
        Inl e \<Rightarrow> (Inl e, s)
      | Inr _ \<Rightarrow> promise_all loads s)"

text \<open>Every chain run to its end: those that settle after a rejection still store their sounds.\<close>

fun settle_all :: "sub_load list \<Rightarrow> audio_system \<Rightarrow> audio_system" where
  "settle_all [] s = s"
| "settle_all (l # ls) s =
     settle_all ls (snd (load_sound (load_name l) (load_info l) (load_time l) (load_result l) s))"

subsection \<open>Playing\<close>

definition sound_missing :: "string \<Rightarrow> error" where
  "sound_missing soundName =
     Error (''Sound '' @ [CHR 0x22] @ soundName @ [CHR 0x22] @ '' does not exist'')"

text \<open>
  \<^verbatim>\<open>sound.instances[0].source.stop()\<close>; reading \<^verbatim>\<open>source\<close> of \<^verbatim>\<open>undefined\<close>
  throws, and so does the platform when that source was never started.
\<close>

definition stop_oldest :: "nat list \<Rightarrow> audio_system \<Rightarrow> error + audio_system" where
  "stop_oldest insts s =
     (case insts of
        [] \<Rightarrow> Inl TypeError
      | i # _ \<Rightarrow>
          let inst = instance_heap s ! i in
          case source_stop 0 (source inst) of
            Inl e \<Rightarrow> Inl e
          | Inr src \<Rightarrow>
              Inr (s\<lparr>instance_heap := (instance_heap s)[i := inst\<lparr>source := src\<rparr>]\<rparr>))"

text \<open>The gain node of a new instance: set at once, or ramped up from the floor value.\<close>

definition instance_gain :: "real \<Rightarrow> real \<Rightarrow> real \<Rightarrow> error + gain_node" where
  "instance_gain now fadeInSeconds target =
     (case (if fadeInSeconds \<le> 0 then Inr (createGain\<lparr>gain_value := target\<rparr>)
            else
              (case setValueAtTime (1 / 10000) now createGain of
                 Inl e \<Rightarrow> Inl e
               | Inr g \<Rightarrow> exponentialRampToValueAtTime target (now + fadeInSeconds) g)) of
        Inl e \<Rightarrow> Inl e
      | Inr g \<Rightarrow> Inr (connect MasterGain g))"

text \<open>The source node of a new instance, before \<^verbatim>\<open>onended\<close> is set and it is started.\<close>

definition instance_source :: "audio_buffer \<Rightarrow> bool \<Rightarrow> real \<Rightarrow> source_node" where
  "instance_source buf loop offset =
     (let src = createBufferSource\<lparr>source_buffer := Some buf\<rparr>;
          src1 = (if loop then
                    let l = src\<lparr>source_loop := True\<rparr> in
                    if offset > 0 then l\<lparr>loopStart := offset, loopEnd := duration buf\<rparr> else l
                  else src)
      in src1\<lparr>source_connected := True\<rparr>)"

text \<open>
  \<^verbatim>\<open>play(soundName, volume, loop, tag, offset, fadeInSeconds, stopOldestIfMax,
  endedCallback)\<close> at context time \<open>now\<close>, with \<open>product\<close> the multiplication of
  doubles. The result is the new instance's identity, \<open>None\<close> for \<^verbatim>\<open>null\<close>.
  The instance is pushed on both lists and its source given the end handler before
  \<^verbatim>\<open>source.start\<close> is called: when that call throws, the instance stays listed with a
  source that was never started.
\<close>

definition play ::
    "(real \<Rightarrow> real \<Rightarrow> real) \<Rightarrow> real \<Rightarrow> string \<Rightarrow> real \<Rightarrow> bool \<Rightarrow> tag \<Rightarrow> real \<Rightarrow> real \<Rightarrow> bool
      \<Rightarrow> callback option \<Rightarrow> audio_system \<Rightarrow> (error + nat option) \<times> audio_system" where
  "play product now soundName vol loop tg offset fadeInSeconds stopOldestIfMax endedCallback s =
     (case getAudioContext s of
        Inl e \<Rightarrow> (Inl e, s)
      | Inr _ \<Rightarrow>
     (case map_of (sounds s) soundName of
        None \<Rightarrow> (Inl (sound_missing soundName), s)
      | Some sid \<Rightarrow>
          let snd' = sound_heap s ! sid in
          if maxSources snd' \<le> 0 then (Inr None, s)
          else if int (length (instances snd')) \<ge> maxSources snd' \<and> \<not> stopOldestIfMax
          then (Inr None, s)
          else
            (case (if int (length (instances snd')) \<ge> maxSources snd'
                   then stop_oldest (instances snd') s else Inr s) of
               Inl e \<Rightarrow> (Inl e, s)
             | Inr s1 \<Rightarrow>
                 (case instance_gain now fadeInSeconds (product (baseVolume snd') vol) of
                    Inl e \<Rightarrow> (Inl e, s1)
                  | Inr g \<Rightarrow>
                      let iid = length (instance_heap s1);
                          src = (instance_source (buffer snd') loop offset)
                                  \<lparr>onended := Some \<lparr>handler_sound = sid,
                                                    handler_callback = endedCallback\<rparr>\<rparr>;
                          inst = \<lparr>source = src, gain = g, tag = tg, stopping = False,
                                  startTime = now\<rparr>;
                          s2 = s1\<lparr>sound_heap := (sound_heap s1)
                                   [sid := snd'\<lparr>instances := instances snd' @ [iid]\<rparr>],
                                 soundInstances := soundInstances s1 @ [iid],
                                 instance_heap := instance_heap s1 @ [inst]\<rparr>
                      in case source_start now offset src of
                           Inl e \<Rightarrow> (Inl e, s2)
                         | Inr src' \<Rightarrow>
                             (Inr (Some iid),
                              s2\<lparr>instance_heap :=
                                   (instance_heap s2)[iid := inst\<lparr>source := src'\<rparr>]\<rparr>)))))"

subsection \<open>The end of an instance\<close>

text \<open>
  The function assigned to \<^verbatim>\<open>source.onended\<close> of instance \<open>iid\<close> first calls the
  caller's \<^verbatim>\<open>endedCallback\<close>, if there is one, and then releases the instance:
  it disconnects the gain node and removes the instance from its sound's list and from
  the global list (\<^verbatim>\<open>indexOf\<close> followed by \<^verbatim>\<open>splice(index, 1)\<close> removes the first
  occurrence, if there is one).
\<close>

definition handler_cleanup :: "nat \<Rightarrow> nat \<Rightarrow> audio_system \<Rightarrow> audio_system" where
  "handler_cleanup iid sid s =
     (let inst = instance_heap s ! iid;
          s2 = s\<lparr>instance_heap :=
                  (instance_heap s)[iid := inst\<lparr>gain := disconnect (gain inst)\<rparr>]\<rparr>;
          snd' = sound_heap s2 ! sid;
          s3 = s2\<lparr>sound_heap :=
                   (sound_heap s2)[sid := snd'\<lparr>instances := remove1 iid (instances snd')\<rparr>]\<rparr>
      in s3\<lparr>soundInstances := remove1 iid (soundInstances s3)\<rparr>)"

text \<open>
  What the caller's callback does is an input, \<open>outcome\<close>: it returns or it throws (it
  is taken not to call the audio system itself). The handler has no \<^verbatim>\<open>try\<close>: when the
  callback throws, the handler ends there and nothing is released. The call is logged
  with its outcome.
\<close>

definition ended_handler_run :: "nat \<Rightarrow> callback_outcome \<Rightarrow> audio_system \<Rightarrow> audio_system" where
  "ended_handler_run iid outcome s =
     (case onended (source (instance_heap s ! iid)) of
        None \<Rightarrow> s
      | Some h \<Rightarrow>
          (case handler_callback h of
             None \<Rightarrow> handler_cleanup iid (handler_sound h) s
           | Some cb \<Rightarrow>
               let s1 = s\<lparr>callback_log := callback_log s @ [(cb, iid, outcome)]\<rparr> in
               if outcome = Throws then s1 else handler_cleanup iid (handler_sound h) s1))"

text \<open>
  The platform dispatches \<^verbatim>\<open>ended\<close> to a source node: it marks the node as ended and
  runs its handler. The dispatch is a task of its own, run after the call that requested
  a stop has returned (the specification's section 5 calls the end callbacks asynchronous
  completion callbacks).
\<close>

definition ended_event :: "nat \<Rightarrow> callback_outcome \<Rightarrow> audio_system \<Rightarrow> audio_system" where
  "ended_event iid outcome s =
     (let inst = instance_heap s ! iid in
      ended_handler_run iid outcome
        (s\<lparr>instance_heap :=
             (instance_heap s)[iid := inst\<lparr>source := (source inst)\<lparr>has_ended := True\<rparr>\<rparr>]\<rparr>))"

text \<open>
  The platform's side of the contract, which the code relies on and cannot enforce: a
  source gets \<^verbatim>\<open>ended\<close> only if it was started, and only once. When (after the buffer
  has run out, or after a requested stop has taken effect) is not modelled: the
  dispatch may come at any time while this condition holds.
\<close>

definition ended_possible :: "audio_system \<Rightarrow> nat \<Rightarrow> bool" where
  "ended_possible s iid =
     (iid < length (instance_heap s) \<and>
      start_call (source (instance_heap s ! iid)) \<noteq> None \<and>
      \<not> has_ended (source (instance_heap s ! iid)))"

subsection \<open>Stopping\<close>

text \<open>
  The body of the loop of \<^verbatim>\<open>stop\<close> below the \<^verbatim>\<open>continue\<close>; \<open>current\<close> is what
  \<^verbatim>\<open>instance.gain.gain.value\<close> reads at the call. The flag is set first, so it stays
  set when one of the platform's calls throws.
\<close>

definition stop_instance ::
    "real \<Rightarrow> real \<Rightarrow> real \<Rightarrow> sound_instance \<Rightarrow> (error + unit) \<times> sound_instance" where
  "stop_instance now current fadeOutSeconds inst =
     (let inst1 = inst\<lparr>stopping := True\<rparr> in
      if fadeOutSeconds \<le> 0 then
        (case source_stop 0 (source inst1) of
           Inl e \<Rightarrow> (Inl e, inst1)
         | Inr src \<Rightarrow> (Inr (), inst1\<lparr>source := src\<rparr>))
      else
        (case setValueAtTime current now (gain inst1) of
           Inl e \<Rightarrow> (Inl e, inst1)
         | Inr g1 \<Rightarrow>
             (case exponentialRampToValueAtTime (1 / 10000) (now + fadeOutSeconds) g1 of
                Inl e \<Rightarrow> (Inl e, inst1\<lparr>gain := g1\<rparr>)
              | Inr g \<Rightarrow>
                  (case source_stop (now + fadeOutSeconds) (source inst1) of
                     Inl e \<Rightarrow> (Inl e, inst1\<lparr>gain := g\<rparr>)
                   | Inr src \<Rightarrow> (Inr (), inst1\<lparr>gain := g, source := src\<rparr>)))))"

text \<open>The loop over a list of identities; an exception ends it where it is thrown.\<close>

fun stop_loop ::
    "real \<Rightarrow> (nat \<Rightarrow> real) \<Rightarrow> tag \<Rightarrow> real \<Rightarrow> nat list \<Rightarrow> sound_instance list
      \<Rightarrow> (error + unit) \<times> sound_instance list" where
  "stop_loop now current tg fadeOutSeconds [] heap = (Inr (), heap)"
| "stop_loop now current tg fadeOutSeconds (i # is) heap =
     (let inst = heap ! i in
      if stopping inst \<or> (tg \<noteq> None \<and> tag inst \<noteq> tg)
      then stop_loop now current tg fadeOutSeconds is heap
      else
        (case stop_instance now (current i) fadeOutSeconds inst of
           (Inl e, inst') \<Rightarrow> (Inl e, heap[i := inst'])
         | (Inr _, inst') \<Rightarrow> stop_loop now current tg fadeOutSeconds is (heap[i := inst'])))"

text \<open>
  \<^verbatim>\<open>stop(tag, fadeOutSeconds)\<close> at context time \<open>now\<close>; the loop runs over the global
  list from its last element to its first.
\<close>

definition stop ::
    "real \<Rightarrow> (nat \<Rightarrow> real) \<Rightarrow> tag \<Rightarrow> real \<Rightarrow> audio_system \<Rightarrow> (error + unit) \<times> audio_system" where
  "stop now current tg fadeOutSeconds s =
     (case getAudioContext s of
        Inl e \<Rightarrow> (Inl e, s)
      | Inr _ \<Rightarrow>
          (case stop_loop now current tg fadeOutSeconds (rev (soundInstances s))
                  (instance_heap s) of
             (r, heap) \<Rightarrow> (r, s\<lparr>instance_heap := heap\<rparr>)))"

definition isTagPlaying :: "tag \<Rightarrow> audio_system \<Rightarrow> bool" where
  "isTagPlaying tg s =
     list_ex (\<lambda>i. \<not> stopping (instance_heap s ! i) \<and> tag (instance_heap s ! i) = tg)
       (soundInstances s)"

subsection \<open>Well-formed states\<close>

text \<open>
  The caller's callback threw when the handler of instance \<open>i\<close> ran; and instance \<open>i\<close>
  is released: the platform has dispatched \<^verbatim>\<open>ended\<close> to its source and its handler ran
  to the end.
\<close>

definition callback_threw :: "audio_system \<Rightarrow> nat \<Rightarrow> bool" where
  "callback_threw s i =
     list_ex (\<lambda>e. fst (snd e) = i \<and> snd (snd e) = Throws) (callback_log s)"

definition released :: "audio_system \<Rightarrow> nat \<Rightarrow> bool" where
  "released s i = (has_ended (source (instance_heap s ! i)) \<and> \<not> callback_threw s i)"

text \<open>
  Instance \<open>i\<close> is tracked: its source has its end handler, and only a started source
  has ended. As long as it is not released it occurs once in the global list and once in
  the list of the sound its handler holds, and in no other sound's list; once it is
  released it occurs in no list and its gain node is disconnected. The caller's callback
  has been called for it once if its source has ended and it has a callback, and not at
  all otherwise.
\<close>

definition tracked :: "audio_system \<Rightarrow> nat \<Rightarrow> bool" where
  "tracked s i =
     (let inst = instance_heap s ! i in
      case onended (source inst) of
        None \<Rightarrow> False
      | Some h \<Rightarrow>
          handler_sound h < length (sound_heap s) \<and>
          (has_ended (source inst) \<longrightarrow> start_call (source inst) \<noteq> None) \<and>
          count_list (soundInstances s) i = (if released s i then 0 else 1) \<and>
          (\<forall>sid < length (sound_heap s).
             count_list (instances (sound_heap s ! sid)) i =
               (if \<not> released s i \<and> sid = handler_sound h then 1 else 0)) \<and>
          (\<forall>cb. count_list (callback_log s) (cb, i, Returns) +
                count_list (callback_log s) (cb, i, Throws) =
               (if has_ended (source inst) \<and> handler_callback h = Some cb then 1 else 0)) \<and>
          (released s i \<longrightarrow> gain_output (gain inst) = None))"

text \<open>
  A well-formed state: every identity held by a collection is that of an object of the
  heap, and every instance is tracked.
\<close>

definition wf_state :: "audio_system \<Rightarrow> bool" where
  "wf_state s =
     ((\<forall>name sid. map_of (sounds s) name = Some sid \<longrightarrow> sid < length (sound_heap s)) \<and>
      (\<forall>i \<in> set (soundInstances s). i < length (instance_heap s)) \<and>
      (\<forall>sid < length (sound_heap s).
         \<forall>i \<in> set (instances (sound_heap s ! sid)). i < length (instance_heap s)) \<and>
      (\<forall>e \<in> set (callback_log s). fst (snd e) < length (instance_heap s)) \<and>
      (\<forall>i < length (instance_heap s). tracked s i))"

text \<open>
  The states the system can be in: from the initial one by calls of the operations
  (whether they return or throw), by the completion of a sound's loading chain, and by
  the platform's dispatch of \<^verbatim>\<open>ended\<close> where its contract allows one, with either
  outcome of the caller's callback.
\<close>

inductive reachable :: "audio_system \<Rightarrow> bool" where
  reach_initial: "reachable initial"
| reach_create: "reachable s \<Longrightarrow> reachable (snd (createAudioContext a d fresh s))"
| reach_volume: "reachable s \<Longrightarrow> reachable (snd (setGlobalVolume v s))"
| reach_load: "reachable s \<Longrightarrow> reachable (snd (load_sound name info time outcome s))"
| reach_play:
    "reachable s \<Longrightarrow>
     reachable (snd (play product now soundName vol loop tg offset fadeIn stopOldest cb s))"
| reach_stop: "reachable s \<Longrightarrow> reachable (snd (stop now current tg fadeOut s))"
| reach_ended: "reachable s \<Longrightarrow> ended_possible s i \<Longrightarrow> reachable (ended_event i outcome s)"

text \<open>Two instance records that agree on what \<open>tracked\<close> reads.\<close>

definition same_tracking :: "sound_instance \<Rightarrow> sound_instance \<Rightarrow> bool" where
  "same_tracking a b =
     (onended (source a) = onended (source b) \<and>
      start_call (source a) = start_call (source b) \<and>
      has_ended (source a) = has_ended (source b) \<and>
      gain_output (gain a) = gain_output (gain b))"

text \<open>
  The state after an accepted \<^verbatim>\<open>source.stop()\<close> on instance \<open>i\<close>, and after the two
  pushes of \<^verbatim>\<open>play\<close>.
\<close>

definition evict :: "nat \<Rightarrow> audio_system \<Rightarrow> audio_system" where
  "evict i s =
     s\<lparr>instance_heap :=
         (instance_heap s)
           [i := (instance_heap s ! i)
              \<lparr>source := (source (instance_heap s ! i))
                 \<lparr>stop_calls := stop_calls (source (instance_heap s ! i)) @ [0]\<rparr>\<rparr>]\<rparr>"

definition push_instance :: "nat \<Rightarrow> sound_instance \<Rightarrow> audio_system \<Rightarrow> audio_system" where
  "push_instance sid inst s =
     s\<lparr>sound_heap := (sound_heap s)
          [sid := (sound_heap s ! sid)
             \<lparr>instances := instances (sound_heap s ! sid) @ [length (instance_heap s)]\<rparr>],
       soundInstances := soundInstances s @ [length (instance_heap s)],
       instance_heap := instance_heap s @ [inst]\<rparr>"

text \<open>
  The instance object that \<^verbatim>\<open>play\<close> builds, given its gain node: as it is pushed, and
  with its source started.
\<close>

definition new_instance ::
    "nat \<Rightarrow> audio_buffer \<Rightarrow> real \<Rightarrow> bool \<Rightarrow> tag \<Rightarrow> real \<Rightarrow> callback option \<Rightarrow> gain_node
      \<Rightarrow> sound_instance" where
  "new_instance sid buf now loop tg offset endedCallback g =
     \<lparr>source = (instance_source buf loop offset)
        \<lparr>onended := Some \<lparr>handler_sound = sid, handler_callback = endedCallback\<rparr>\<rparr>,
      gain = g, tag = tg, stopping = False, startTime = now\<rparr>"

definition started :: "real \<Rightarrow> real \<Rightarrow> sound_instance \<Rightarrow> sound_instance" where
  "started when' offset inst = inst\<lparr>source := (source inst)\<lparr>start_call := Some (when', offset)\<rparr>\<rparr>"

text \<open>
  What \<^verbatim>\<open>stop\<close> may change of an instance: the flag, the stop requests recorded on its
  source node and the events scheduled on its gain node; \<open>a\<close> is the instance after,
  \<open>b\<close> the instance before.
\<close>

definition stop_touched :: "sound_instance \<Rightarrow> sound_instance \<Rightarrow> bool" where
  "stop_touched a b =
     (tag a = tag b \<and> startTime a = startTime b \<and>
      (\<exists>c. source a = (source b)\<lparr>stop_calls := c\<rparr>) \<and>
      (\<exists>e. gain a = (gain b)\<lparr>gain_events := e\<rparr>))"

subsection \<open>Example runs\<close>

text \<open>
  The scenario of the specification: the context is created, the sound \<^verbatim>\<open>click\<close>
  (\<^verbatim>\<open>click.wav\<close>, at most one source, base volume 1) is loaded, and it is played.
  \<^verbatim>\<open>music\<close> allows two sources at base volume one half. In these runs the
  product of base volume and volume is the exact one.
\<close>

definition click_info :: sound_info where
  "click_info = \<lparr>info_path = ''click.wav'', info_maxSources = 1, info_baseVolume = 1\<rparr>"

definition music_info :: sound_info where
  "music_info = \<lparr>info_path = ''music.mp3'', info_maxSources = 2, info_baseVolume = 1 / 2\<rparr>"

definition click_buffer :: audio_buffer where
  "click_buffer = \<lparr>buffer_id = 0, duration = 2\<rparr>"

definition music_buffer :: audio_buffer where
  "music_buffer = \<lparr>buffer_id = 1, duration = 90\<rparr>"

definition ready :: audio_system where
  "ready = snd (createAudioContext None None Running initial)"

definition loaded :: audio_system where
  "loaded =
     snd (load_sound ''music'' music_info [] (Decoded music_buffer)
       (snd (load_sound ''click'' click_info [] (Decoded click_buffer) ready)))"

text \<open>\<^verbatim>\<open>play('click')\<close> at time 0.\<close>

definition click_once :: audio_system where
  "click_once = snd (play times 0 ''click'' 1 False None 0 0 True None loaded)"

text \<open>Then \<^verbatim>\<open>play('click')\<close> again at time 1.\<close>

definition click_twice :: audio_system where
  "click_twice = snd (play times 1 ''click'' 1 False None 0 0 True None click_once)"

text \<open>\<^verbatim>\<open>play('click')\<close> at time 0, then \<^verbatim>\<open>stop(null, 2)\<close> at time 1.\<close>

definition click_fading :: audio_system where
  "click_fading = snd (stop 1 (\<lambda>i. 1) None 2 click_once)"



text \<open>\<^verbatim>\<open>play('click', 1, false, 'a')\<close> at time 0.\<close>

definition click_a :: audio_system where
  "click_a = snd (play times 0 ''click'' 1 False (Some ''a'') 0 0 True None loaded)"

text \<open>Then \<^verbatim>\<open>play('click', 1, false, 'b')\<close> at time 1, which evicts the first.\<close>

definition click_a_b :: audio_system where
  "click_a_b = snd (play times 1 ''click'' 1 False (Some ''b'') 0 0 True None click_a)"

text \<open>
  \<^verbatim>\<open>play('click', 1, false, null, -1)\<close> at time 0 on the loaded system: the call
  throws at \<^verbatim>\<open>source.start\<close> and leaves an instance whose source was never started.
\<close>

definition click_unstarted :: audio_system where
  "click_unstarted = snd (play times 0 ''click'' 1 False None (- 1) 0 True None loaded)"


section \<open>Properties\<close>

subsection \<open>Well-formedness is kept by every operation\<close>

lemma same_tracking_refl: "same_tracking a a"
  by (simp add: same_tracking_def)

lemma callback_threw_iff:
  "callback_threw s i \<longleftrightarrow> (\<exists>cb. count_list (callback_log s) (cb, i, Throws) \<noteq> 0)"
  by (force simp add: callback_threw_def list_ex_iff count_list_0_iff)

lemma tracked_iff:
  "tracked s i \<longleftrightarrow>
     (\<exists>h. onended (source (instance_heap s ! i)) = Some h \<and>
        handler_sound h < length (sound_heap s) \<and>
        (has_ended (source (instance_heap s ! i)) \<longrightarrow>
           start_call (source (instance_heap s ! i)) \<noteq> None) \<and>
        count_list (soundInstances s) i = (if released s i then 0 else 1) \<and>
        (\<forall>sid < length (sound_heap s).
           count_list (instances (sound_heap s ! sid)) i =
             (if \<not> released s i \<and> sid = handler_sound h then 1 else 0)) \<and>
        (\<forall>cb. count_list (callback_log s) (cb, i, Returns) +
              count_list (callback_log s) (cb, i, Throws) =
             (if has_ended (source (instance_heap s ! i)) \<and> handler_callback h = Some cb
              then 1 else 0)) \<and>
        (released s i \<longrightarrow> gain_output (gain (instance_heap s ! i)) = None))"
  unfolding tracked_def Let_def by (cases "onended (source (instance_heap s ! i))") simp_all

text \<open>
  An instance stays tracked when its record keeps what \<open>tracked\<close> reads, the calls
  logged for it and its occurrences in the lists stay, and the sound heap only grows by
  sounds that do not list it.
\<close>

lemma tracked_transfer:
  assumes "tracked s i"
    and "same_tracking (instance_heap s' ! i) (instance_heap s ! i)"
    and "\<And>cb out. count_list (callback_log s') (cb, i, out)
      = count_list (callback_log s) (cb, i, out)"
    and "count_list (soundInstances s') i = count_list (soundInstances s) i"
    and "length (sound_heap s) \<le> length (sound_heap s')"
    and "\<And>sid. sid < length (sound_heap s) \<Longrightarrow>
      count_list (instances (sound_heap s' ! sid)) i
        = count_list (instances (sound_heap s ! sid)) i"
    and "\<And>sid. length (sound_heap s) \<le> sid \<Longrightarrow> sid < length (sound_heap s') \<Longrightarrow>
      count_list (instances (sound_heap s' ! sid)) i = 0"
  shows "tracked s' i"
proof -
  obtain h where h: "onended (source (instance_heap s ! i)) = Some h"
    and hs: "handler_sound h < length (sound_heap s)"
    and st: "has_ended (source (instance_heap s ! i)) \<longrightarrow>
      start_call (source (instance_heap s ! i)) \<noteq> None"
    and gl: "count_list (soundInstances s) i = (if released s i then 0 else 1)"
    and so: "\<And>sid. sid < length (sound_heap s) \<Longrightarrow>
      count_list (instances (sound_heap s ! sid)) i =
        (if \<not> released s i \<and> sid = handler_sound h then 1 else 0)"
    and lg: "\<And>cb. count_list (callback_log s) (cb, i, Returns) +
        count_list (callback_log s) (cb, i, Throws) =
        (if has_ended (source (instance_heap s ! i)) \<and> handler_callback h = Some cb
         then 1 else 0)"
    and go: "released s i \<longrightarrow> gain_output (gain (instance_heap s ! i)) = None"
    using assms(1) unfolding tracked_iff by blast
  have same: "onended (source (instance_heap s' ! i)) = Some h"
    "start_call (source (instance_heap s' ! i)) = start_call (source (instance_heap s ! i))"
    "has_ended (source (instance_heap s' ! i)) = has_ended (source (instance_heap s ! i))"
    "gain_output (gain (instance_heap s' ! i)) = gain_output (gain (instance_heap s ! i))"
    using assms(2) h by (simp_all add: same_tracking_def)
  have rel: "released s' i = released s i"
    by (simp add: released_def callback_threw_iff same(3) assms(3))
  have sounds': "count_list (instances (sound_heap s' ! sid)) i =
      (if \<not> released s' i \<and> sid = handler_sound h then 1 else 0)"
    if "sid < length (sound_heap s')" for sid
  proof (cases "sid < length (sound_heap s)")
    case True
    then show ?thesis
      using assms(6) so by (simp add: rel)
  next
    case False
    then show ?thesis
      using assms(7) [of sid] that hs by simp
  qed
  show ?thesis
    unfolding tracked_iff
    using same hs st gl lg go sounds' assms(3,4,5) by (simp add: rel)
qed

lemma tracked_cong:
  assumes "soundInstances s' = soundInstances s" and "sound_heap s' = sound_heap s"
    and "callback_log s' = callback_log s"
    and "same_tracking (instance_heap s' ! i) (instance_heap s ! i)"
    and "tracked s i"
  shows "tracked s' i"
  by (rule tracked_transfer [OF assms(5,4)]) (simp_all add: assms(1-3))

lemma wf_state_cong:
  assumes "wf_state s"
    and "sounds s' = sounds s" and "soundInstances s' = soundInstances s"
    and "sound_heap s' = sound_heap s" and "callback_log s' = callback_log s"
    and "length (instance_heap s') = length (instance_heap s)"
    and "\<forall>i < length (instance_heap s). same_tracking (instance_heap s' ! i) (instance_heap s ! i)"
  shows "wf_state s'"
proof -
  have "tracked s' i" if "i < length (instance_heap s)" for i
    using assms that tracked_cong [of s' s i] by (simp add: wf_state_def)
  then show ?thesis
    using assms by (simp add: wf_state_def)
qed

lemma wf_initial: "wf_state initial"
  by (simp add: wf_state_def initial_def)

lemma tracked_set_sound:
  assumes "tracked s i"
  shows "tracked (set_sound name info buf s) i"
  by (rule tracked_transfer [OF assms])
    (simp_all add: set_sound_def same_tracking_refl nth_append)

lemma wf_set_sound:
  assumes "wf_state s"
  shows "wf_state (set_sound name info buf s)"
proof -
  have t: "\<forall>i < length (instance_heap s). tracked (set_sound name info buf s) i"
    using assms tracked_set_sound by (simp add: wf_state_def)
  show ?thesis
    using assms t
    by (auto simp add: wf_state_def set_sound_def update_conv' nth_append less_Suc_eq)
qed

lemma wf_load_sound:
  "wf_state s \<Longrightarrow> wf_state (snd (load_sound name info time outcome s))"
  by (cases outcome) (simp_all add: load_sound_def wf_set_sound)

lemma wf_setGlobalVolume:
  assumes "wf_state s"
  shows "wf_state (snd (setGlobalVolume v s))"
  by (rule wf_state_cong [OF assms])
    (simp_all add: setGlobalVolume_def getAudioContext_def Let_def same_tracking_refl
      split: option.splits sum.splits)

lemma wf_createAudioContext:
  assumes "wf_state s"
  shows "wf_state (snd (createAudioContext a d fresh s))"
proof (cases "ac s = None")
  case True
  have "wf_state (s\<lparr>ac := x, acResuming := y, destinationNode := z, masterGain := g,
      gainConnected := c\<rparr>)" for x y z g c
    by (rule wf_state_cong [OF assms]) (simp_all add: same_tracking_refl)
  then show ?thesis
    using True by (simp add: createAudioContext_def Let_def wf_setGlobalVolume)
next
  case False
  then show ?thesis
    using assms by (simp add: createAudioContext_def)
qed

lemma wf_evict:
  assumes "wf_state s"
  shows "wf_state (evict i s)"
proof (cases "i < length (instance_heap s)")
  case True
  show ?thesis
    by (rule wf_state_cong [OF assms])
      (simp_all add: evict_def same_tracking_def nth_list_update True)
next
  case False
  then have "length (instance_heap s) \<le> i"
    by simp
  then show ?thesis
    using assms by (simp add: evict_def list_update_beyond)
qed

lemma wf_push_instance:
  assumes "wf_state s" and "sid < length (sound_heap s)"
    and "onended (source inst) = Some h" and "handler_sound h = sid"
    and "\<not> has_ended (source inst)"
  shows "wf_state (push_instance sid inst s)"
proof -
  let ?n = "length (instance_heap s)"
  have fresh_global: "?n \<notin> set (soundInstances s)"
    using assms(1) by (auto simp add: wf_state_def)
  have fresh_sound: "?n \<notin> set (instances (sound_heap s ! k))" if "k < length (sound_heap s)" for k
    using assms(1) that by (auto simp add: wf_state_def)
  have fresh_log: "(cb, ?n, out) \<notin> set (callback_log s)" for cb out
    using assms(1) by (force simp add: wf_state_def)
  have old: "tracked (push_instance sid inst s) i" if "i < ?n" for i
  proof -
    have "tracked s i"
      using assms(1) that by (simp add: wf_state_def)
    then show ?thesis
    proof (rule tracked_transfer)
      show "same_tracking (instance_heap (push_instance sid inst s) ! i) (instance_heap s ! i)"
        using that by (simp add: push_instance_def nth_append same_tracking_refl)
      show "count_list (instances (sound_heap (push_instance sid inst s) ! k)) i
          = count_list (instances (sound_heap s ! k)) i" if "k < length (sound_heap s)" for k
        using that \<open>i < ?n\<close> assms(2) by (simp add: push_instance_def nth_list_update)
    qed (use that in \<open>simp_all add: push_instance_def\<close>)
  qed
  have not_released: "\<not> released (push_instance sid inst s) ?n"
    using assms(5) by (simp add: released_def push_instance_def)
  have new: "tracked (push_instance sid inst s) ?n"
    unfolding tracked_iff
    using assms(2-5) fresh_global fresh_sound fresh_log not_released
    by (simp add: push_instance_def nth_list_update)
  have all: "\<forall>i < length (instance_heap (push_instance sid inst s)).
      tracked (push_instance sid inst s) i"
    using old new by (auto simp add: push_instance_def less_Suc_eq)
  have refs: "(\<forall>name k. map_of (sounds (push_instance sid inst s)) name = Some k \<longrightarrow>
        k < length (sound_heap (push_instance sid inst s))) \<and>
      (\<forall>i \<in> set (soundInstances (push_instance sid inst s)).
        i < length (instance_heap (push_instance sid inst s))) \<and>
      (\<forall>k < length (sound_heap (push_instance sid inst s)).
         \<forall>i \<in> set (instances (sound_heap (push_instance sid inst s) ! k)).
           i < length (instance_heap (push_instance sid inst s))) \<and>
      (\<forall>e \<in> set (callback_log (push_instance sid inst s)).
         fst (snd e) < length (instance_heap (push_instance sid inst s)))"
    using assms(1,2)
    by (auto simp add: wf_state_def push_instance_def nth_list_update less_Suc_eq)
  show ?thesis
    using refs all unfolding wf_state_def by blast
qed
lemma length_evict: "length (instance_heap (evict i s)) = length (instance_heap s)"
  by (simp add: evict_def)

lemma list_update_last: "length ys = n \<Longrightarrow> (ys @ [x])[n := y] = ys @ [y]"
  by auto

lemma stop_oldest_evict:
  "insts \<noteq> [] \<Longrightarrow>
   stop_oldest insts s =
     (if start_call (source (instance_heap s ! hd insts)) = None then Inl InvalidStateError
      else Inr (evict (hd insts) s))"
  by (cases insts) (simp_all add: stop_oldest_def source_stop_def evict_def Let_def)


text \<open>
  \<^verbatim>\<open>play\<close> when it gets past the two early returns: the eviction, the gain node, the
  pushes and the start, each with its way to throw.
\<close>

lemma play_proceeds:
  assumes "ac s \<noteq> None" and "map_of (sounds s) soundName = Some sid"
    and "0 < maxSources (sound_heap s ! sid)"
    and "stopOldest \<or> int (length (instances (sound_heap s ! sid))) < maxSources (sound_heap s ! sid)"
  shows "play product now soundName vol loop tg offset fadeIn stopOldest cb s =
    (let snd' = sound_heap s ! sid;
         full = (maxSources snd' \<le> int (length (instances snd')));
         oldest = hd (instances snd')
     in if full \<and> start_call (source (instance_heap s ! oldest)) = None
        then (Inl InvalidStateError, s)
        else
          let s1 = (if full then evict oldest s else s) in
          case instance_gain now fadeIn (product (baseVolume snd') vol) of
            Inl e \<Rightarrow> (Inl e, s1)
          | Inr g \<Rightarrow>
              if now < 0 \<or> offset < 0
              then (Inl RangeError,
                    push_instance sid (new_instance sid (buffer snd') now loop tg offset cb g) s1)
              else (Inr (Some (length (instance_heap s))),
                    push_instance sid
                      (started now offset
                         (new_instance sid (buffer snd') now loop tg offset cb g)) s1))"
proof -
  let ?snd = "sound_heap s ! sid"
  have ne: "instances ?snd \<noteq> []" if "maxSources ?snd \<le> int (length (instances ?snd))"
    using that assms(3) by auto
  have start: "source_start now offset
      ((instance_source (buffer ?snd) loop offset)
         \<lparr>onended := Some \<lparr>handler_sound = sid, handler_callback = cb\<rparr>\<rparr>) =
      (if now < 0 \<or> offset < 0 then Inl RangeError
       else Inr ((instance_source (buffer ?snd) loop offset)
         \<lparr>onended := Some \<lparr>handler_sound = sid, handler_callback = cb\<rparr>,
          start_call := Some (now, offset)\<rparr>))"
    by (simp add: source_start_def instance_source_def createBufferSource_def Let_def)
  obtain c where c: "ac s = Some c"
    using assms(1) by blast
  show ?thesis
  proof (cases "maxSources ?snd \<le> int (length (instances ?snd))")
    case True
    then have so: "stopOldest"
      using assms(4) by simp
    show ?thesis
      using c assms(2-3) True so ne [OF True]
      by (simp add: play_def getAudioContext_def Let_def stop_oldest_evict evict_def
          push_instance_def new_instance_def started_def start list_update_last
          split: option.splits sum.splits)
  next
    case False
    then show ?thesis
      using c assms(2-3)
      by (simp add: play_def getAudioContext_def Let_def push_instance_def new_instance_def
          started_def start split: option.splits sum.splits)
  qed
qed

lemma play_returns:
  "play product now soundName vol loop tg offset fadeIn stopOldest cb s = (r, s') \<Longrightarrow>
   (\<exists>sid. ac s \<noteq> None \<and> map_of (sounds s) soundName = Some sid \<and>
      0 < maxSources (sound_heap s ! sid) \<and>
      (stopOldest \<or>
       int (length (instances (sound_heap s ! sid))) < maxSources (sound_heap s ! sid))) \<or>
   ((\<exists>e. r = Inl e) \<or> r = Inr None) \<and> s' = s"
  by (auto simp add: play_def getAudioContext_def Let_def split: option.splits if_splits)

lemma wf_play:
  assumes "wf_state s"
  shows "wf_state (snd (play product now soundName vol loop tg offset fadeIn stopOldest cb s))"
proof -
  obtain r s' where
    p: "play product now soundName vol loop tg offset fadeIn stopOldest cb s = (r, s')"
    by (cases "play product now soundName vol loop tg offset fadeIn stopOldest cb s")
  from play_returns [OF p] show ?thesis
  proof
    assume "\<exists>sid. ac s \<noteq> None \<and> map_of (sounds s) soundName = Some sid \<and>
      0 < maxSources (sound_heap s ! sid) \<and>
      (stopOldest \<or>
       int (length (instances (sound_heap s ! sid))) < maxSources (sound_heap s ! sid))"
    then obtain sid where a: "ac s \<noteq> None" "map_of (sounds s) soundName = Some sid"
        "0 < maxSources (sound_heap s ! sid)"
        "stopOldest \<or>
          int (length (instances (sound_heap s ! sid))) < maxSources (sound_heap s ! sid)"
      by blast
    have sid: "sid < length (sound_heap s)"
      using assms a(2) by (simp add: wf_state_def)
    define s1 where "s1 = (if maxSources (sound_heap s ! sid)
          \<le> int (length (instances (sound_heap s ! sid)))
        then evict (hd (instances (sound_heap s ! sid))) s else s)"
    have wf1: "wf_state s1"
      using assms by (simp add: s1_def wf_evict)
    have sid1: "sid < length (sound_heap s1)"
      using sid by (simp add: s1_def evict_def)
    have wf2: "wf_state (push_instance sid (new_instance sid b now loop tg offset cb g) s1)"
      for b g
      by (rule wf_push_instance [OF wf1 sid1,
            where h = "\<lparr>handler_sound = sid, handler_callback = cb\<rparr>"])
        (simp_all add: new_instance_def instance_source_def createBufferSource_def Let_def)
    have wf3: "wf_state (push_instance sid
        (started now offset (new_instance sid b now loop tg offset cb g)) s1)"
      for b g
      by (rule wf_push_instance [OF wf1 sid1,
            where h = "\<lparr>handler_sound = sid, handler_callback = cb\<rparr>"])
        (simp_all add: new_instance_def started_def instance_source_def
            createBufferSource_def Let_def)
    have "s' = s \<or> s' = s1 \<or>
      (\<exists>b g. s' = push_instance sid (new_instance sid b now loop tg offset cb g) s1) \<or>
      (\<exists>b g. s' = push_instance sid
         (started now offset (new_instance sid b now loop tg offset cb g)) s1)"
      using p unfolding play_proceeds [OF a] s1_def Let_def
      by (auto split: if_splits sum.splits)
    then show ?thesis
      using assms wf1 wf2 wf3 p by auto
  next
    assume "((\<exists>e. r = Inl e) \<or> r = Inr None) \<and> s' = s"
    then show ?thesis
      using assms p by simp
  qed
qed

lemma source_frame:
  "\<exists>c. src = src\<lparr>stop_calls := c\<rparr>" "\<exists>c. src\<lparr>stop_calls := x\<rparr> = src\<lparr>stop_calls := c\<rparr>"
  by (rule exI [of _ "stop_calls src"], simp) blast

lemma gain_frame:
  "\<exists>e. g = g\<lparr>gain_events := e\<rparr>" "\<exists>e. g\<lparr>gain_events := x\<rparr> = g\<lparr>gain_events := e\<rparr>"
  by (rule exI [of _ "gain_events g"], simp) blast

lemma stop_touched_refl: "stop_touched a a"
  by (simp add: stop_touched_def source_frame gain_frame)

lemma stop_touched_trans: "stop_touched a b \<Longrightarrow> stop_touched b c \<Longrightarrow> stop_touched a c"
  by (auto simp add: stop_touched_def)

lemma stop_touched_same: "stop_touched a b \<Longrightarrow> same_tracking a b"
  by (auto simp add: stop_touched_def same_tracking_def)


lemma stop_instance_touched: "stop_touched (snd (stop_instance now c fadeOut inst)) inst"
  by (simp add: stop_instance_def stop_touched_def Let_def setValueAtTime_def
      exponentialRampToValueAtTime_def source_stop_def source_frame gain_frame
      split: sum.splits)


text \<open>
  The loop of \<^verbatim>\<open>stop\<close> over any list of identities, however it ends: the heap keeps
  its length, and of each instance nothing but the flag, the stop requests and the
  scheduled events is touched.
\<close>

lemma stop_loop_frame:
  "length (snd (stop_loop now current tg fadeOut is heap)) = length heap \<and>
   (\<forall>j < length heap. stop_touched (snd (stop_loop now current tg fadeOut is heap) ! j) (heap ! j))"
proof (induction "is" arbitrary: heap)
  case Nil
  show ?case by (simp add: stop_touched_refl)
next
  case (Cons i "is")
  show ?case
  proof (cases "stopping (heap ! i) \<or> (tg \<noteq> None \<and> tag (heap ! i) \<noteq> tg)")
    case True
    then have "stop_loop now current tg fadeOut (i # is) heap
        = stop_loop now current tg fadeOut is heap"
      by (simp add: Let_def)
    then show ?thesis
      using Cons.IH [of heap] by simp
  next
    case False
    obtain r inst' where si: "stop_instance now (current i) fadeOut (heap ! i) = (r, inst')"
      by (cases "stop_instance now (current i) fadeOut (heap ! i)")
    define heap' where "heap' = heap[i := inst']"
    have t: "stop_touched inst' (heap ! i)"
      using stop_instance_touched [of now "current i" fadeOut "heap ! i"] si by simp
    have len: "length heap' = length heap"
      by (simp add: heap'_def)
    have at: "stop_touched (heap' ! j) (heap ! j)" if "j < length heap" for j
      using that t by (cases "j = i") (simp_all add: heap'_def stop_touched_refl)
    show ?thesis
    proof (cases r)
      case (Inl e)
      then have "stop_loop now current tg fadeOut (i # is) heap = (Inl e, heap')"
        using False si by (auto simp add: Let_def heap'_def)
      then show ?thesis
        using len at by simp
    next
      case (Inr u)
      then have step: "stop_loop now current tg fadeOut (i # is) heap
          = stop_loop now current tg fadeOut is heap'"
        using False si by (auto simp add: Let_def heap'_def)
      have "stop_touched (snd (stop_loop now current tg fadeOut is heap') ! j) (heap ! j)"
        if "j < length heap" for j
        using Cons.IH [of heap'] that at [OF that] len stop_touched_trans by auto
      then show ?thesis
        unfolding step using Cons.IH [of heap'] len by simp
    qed
  qed
qed


lemma stop_state:
  assumes "ac s \<noteq> None"
  shows "stop now current tg fadeOut s =
    (fst (stop_loop now current tg fadeOut (rev (soundInstances s)) (instance_heap s)),
     s\<lparr>instance_heap :=
       snd (stop_loop now current tg fadeOut (rev (soundInstances s)) (instance_heap s))\<rparr>)"
  using assms by (auto simp add: stop_def getAudioContext_def split: prod.splits)

lemma wf_stop:
  assumes "wf_state s"
  shows "wf_state (snd (stop now current tg fadeOut s))"
proof (cases "ac s")
  case None
  then show ?thesis
    using assms by (simp add: stop_def getAudioContext_def)
next
  case (Some c)
  let ?l = "stop_loop now current tg fadeOut (rev (soundInstances s)) (instance_heap s)"
  have s': "snd (stop now current tg fadeOut s) = s\<lparr>instance_heap := snd ?l\<rparr>"
    using Some by (simp add: stop_state)
  have "same_tracking (snd ?l ! j) (instance_heap s ! j)" if "j < length (instance_heap s)" for j
    using that stop_loop_frame [of now current tg fadeOut "rev (soundInstances s)" "instance_heap s"]
    by (simp add: stop_touched_same)
  then show ?thesis
    unfolding s'
    using stop_loop_frame [of now current tg fadeOut "rev (soundInstances s)" "instance_heap s"]
    by (intro wf_state_cong [OF assms]) simp_all
qed

text \<open>
  The state after the platform's dispatch of \<^verbatim>\<open>ended\<close> to instance \<open>i\<close>, written out:
  when the handler runs to its end, and when the caller's callback throws.
\<close>

lemma ended_event_released:
  assumes "onended (source (instance_heap s ! i)) = Some h" and "i < length (instance_heap s)"
    and "handler_callback h = None \<or> outcome = Returns"
  shows "ended_event i outcome s = s
    \<lparr>callback_log :=
       (case handler_callback h of
          None \<Rightarrow> callback_log s
        | Some cb \<Rightarrow> callback_log s @ [(cb, i, Returns)]),
     instance_heap := (instance_heap s)
       [i := (instance_heap s ! i)
          \<lparr>source := (source (instance_heap s ! i))\<lparr>has_ended := True\<rparr>,
           gain := disconnect (gain (instance_heap s ! i))\<rparr>],
     sound_heap := (sound_heap s)
       [handler_sound h := (sound_heap s ! handler_sound h)
          \<lparr>instances := remove1 i (instances (sound_heap s ! handler_sound h))\<rparr>],
     soundInstances := remove1 i (soundInstances s)\<rparr>"
  using assms
  by (auto simp add: ended_event_def ended_handler_run_def handler_cleanup_def Let_def
      split: option.splits)

lemma ended_event_threw:
  assumes "onended (source (instance_heap s ! i)) = Some h" and "i < length (instance_heap s)"
    and "handler_callback h = Some cb"
  shows "ended_event i Throws s = s
    \<lparr>callback_log := callback_log s @ [(cb, i, Throws)],
     instance_heap := (instance_heap s)
       [i := (instance_heap s ! i)
          \<lparr>source := (source (instance_heap s ! i))\<lparr>has_ended := True\<rparr>\<rparr>]\<rparr>"
  using assms
  by (simp add: ended_event_def ended_handler_run_def Let_def)

lemma wf_ended_event:
  assumes "wf_state s" and "ended_possible s i"
  shows "wf_state (ended_event i outcome s)"
proof -
  have i: "i < length (instance_heap s)"
    and live: "\<not> has_ended (source (instance_heap s ! i))"
    and st: "start_call (source (instance_heap s ! i)) \<noteq> None"
    using assms(2) by (simp_all add: ended_possible_def)
  have ti: "tracked s i"
    using assms(1) i by (simp add: wf_state_def)
  then obtain h where h: "onended (source (instance_heap s ! i)) = Some h"
    and hs: "handler_sound h < length (sound_heap s)"
    and gl: "count_list (soundInstances s) i = (if released s i then 0 else 1)"
    and so: "\<And>sid. sid < length (sound_heap s) \<Longrightarrow>
      count_list (instances (sound_heap s ! sid)) i =
        (if \<not> released s i \<and> sid = handler_sound h then 1 else 0)"
    and lg: "\<And>cb. count_list (callback_log s) (cb, i, Returns) +
        count_list (callback_log s) (cb, i, Throws) =
        (if has_ended (source (instance_heap s ! i)) \<and> handler_callback h = Some cb
         then 1 else 0)"
    unfolding tracked_iff by blast
  have nr: "\<not> released s i"
    using live by (simp add: released_def)
  have lg0: "count_list (callback_log s) (cb, i, out) = 0" for cb out
    using lg [of cb] live by (cases out) simp_all
  have gl1: "count_list (soundInstances s) i = 1"
    using gl nr by simp
  have so1: "count_list (instances (sound_heap s ! sid)) i = (if sid = handler_sound h then 1 else 0)"
    if "sid < length (sound_heap s)" for sid
    using so [OF that] nr by simp
  define s' where "s' = ended_event i outcome s"
  have shape: "sounds s' = sounds s \<and> length (sound_heap s') = length (sound_heap s) \<and>
      length (instance_heap s') = length (instance_heap s) \<and>
      set (soundInstances s') \<subseteq> set (soundInstances s) \<and>
      (\<forall>sid < length (sound_heap s).
         set (instances (sound_heap s' ! sid)) \<subseteq> set (instances (sound_heap s ! sid))) \<and>
      set (callback_log s') \<subseteq> set (callback_log s) \<union> {e. fst (snd e) = i}"
    and other: "\<And>j. j < length (instance_heap s) \<Longrightarrow> j \<noteq> i \<Longrightarrow> tracked s' j"
    and self: "tracked s' i"
  proof -
    have tj: "tracked s j" if "j < length (instance_heap s)" for j
      using assms(1) that by (simp add: wf_state_def)
    show "sounds s' = sounds s \<and> length (sound_heap s') = length (sound_heap s) \<and>
      length (instance_heap s') = length (instance_heap s) \<and>
      set (soundInstances s') \<subseteq> set (soundInstances s) \<and>
      (\<forall>sid < length (sound_heap s).
         set (instances (sound_heap s' ! sid)) \<subseteq> set (instances (sound_heap s ! sid))) \<and>
      set (callback_log s') \<subseteq> set (callback_log s) \<union> {e. fst (snd e) = i}"
    proof (cases "handler_callback h = None \<or> outcome = Returns")
      case True
      show ?thesis
        unfolding s'_def ended_event_released [OF h i True]
        using set_remove1_subset [of i] hs
        by (auto simp add: nth_list_update split: option.splits)
    next
      case False
      then obtain cb where cb: "handler_callback h = Some cb" and out: "outcome = Throws"
        by (cases outcome) auto
      show ?thesis
        unfolding s'_def out ended_event_threw [OF h i cb] by auto
    qed
    show "tracked s' j" if "j < length (instance_heap s)" "j \<noteq> i" for j
    proof (cases "handler_callback h = None \<or> outcome = Returns")
      case True
      show ?thesis
        unfolding s'_def ended_event_released [OF h i True]
        by (rule tracked_transfer [OF tj [OF that(1)]])
          (use that hs in \<open>simp_all add: same_tracking_refl nth_list_update
            split: option.splits\<close>)
    next
      case False
      then obtain cb where cb: "handler_callback h = Some cb" and out: "outcome = Throws"
        by (cases outcome) auto
      show ?thesis
        unfolding s'_def out ended_event_threw [OF h i cb]
        by (rule tracked_transfer [OF tj [OF that(1)]])
          (use that in \<open>simp_all add: same_tracking_refl\<close>)
    qed
    show "tracked s' i"
    proof (cases "handler_callback h = None \<or> outcome = Returns")
      case True
      have rel: "released (ended_event i outcome s) i"
        unfolding ended_event_released [OF h i True]
        using i by (simp add: released_def callback_threw_iff lg0 split: option.splits)
      show ?thesis
        unfolding s'_def tracked_iff
        using rel
        unfolding ended_event_released [OF h i True]
        using i h hs st gl1 so1 lg0
        by (simp add: nth_list_update disconnect_def split: option.splits)
    next
      case False
      then obtain cb where cb: "handler_callback h = Some cb" and out: "outcome = Throws"
        by (cases outcome) auto
      have rel: "\<not> released (ended_event i Throws s) i"
        unfolding ended_event_threw [OF h i cb]
        by (auto simp add: released_def callback_threw_iff)
      show ?thesis
        unfolding s'_def tracked_iff out
        using rel
        unfolding ended_event_threw [OF h i cb]
        using i h hs st gl1 so1 lg0 cb
        by simp
    qed
  qed
  have all: "\<forall>j < length (instance_heap s'). tracked s' j"
    using shape other self by (metis (no_types))
  have refs: "(\<forall>name k. map_of (sounds s') name = Some k \<longrightarrow> k < length (sound_heap s')) \<and>
      (\<forall>j \<in> set (soundInstances s'). j < length (instance_heap s')) \<and>
      (\<forall>k < length (sound_heap s').
         \<forall>j \<in> set (instances (sound_heap s' ! k)). j < length (instance_heap s')) \<and>
      (\<forall>e \<in> set (callback_log s'). fst (snd e) < length (instance_heap s'))"
    using assms(1) i shape unfolding wf_state_def by (auto; blast)
  show ?thesis
    using refs all unfolding wf_state_def s'_def by blast
qed

lemma reachable_wf: "reachable s \<Longrightarrow> wf_state s"
  by (induction rule: reachable.induct)
    (simp_all add: wf_initial wf_createAudioContext wf_setGlobalVolume wf_load_sound
      wf_play wf_stop wf_ended_event)

subsection \<open>The example runs, evaluated\<close>

lemmas model_defs =
  createAudioContext_def setGlobalVolume_def getAudioContext_def initial_def
  createGain_def connect_def disconnect_def setValueAtTime_def
  exponentialRampToValueAtTime_def createBufferSource_def source_start_def source_stop_def
  load_sound_def set_sound_def play_def stop_oldest_def instance_gain_def
  instance_source_def new_instance_def started_def stop_def stop_instance_def
  ended_event_def ended_handler_run_def handler_cleanup_def ended_possible_def
  isTagPlaying_def Let_def

lemma ready_eq:
  "ready =
     \<lparr>ac = Some Running, acResuming = Some False,
      masterGain =
        Some \<lparr>gain_value = 1, gain_events = [], gain_output = Some ContextDestination\<rparr>,
      gainConnected = Some True, destinationNode = Some ContextDestination,
      volume = 1, sounds = [], soundInstances = [], sound_heap = [], instance_heap = [],
      callback_log = []\<rparr>"
  by (simp add: ready_def model_defs)

lemma loaded_eq:
  "loaded =
     ready\<lparr>sounds := [(''click'', 0), (''music'', 1)],
       sound_heap :=
         [\<lparr>buffer = click_buffer, maxSources = 1, baseVolume = 1, instances = []\<rparr>,
          \<lparr>buffer = music_buffer, maxSources = 2, baseVolume = 1 / 2, instances = []\<rparr>]\<rparr>"
  by (simp add: loaded_def ready_eq click_info_def music_info_def model_defs)

lemma click_once_eq:
  "click_once =
     loaded\<lparr>sound_heap :=
         [\<lparr>buffer = click_buffer, maxSources = 1, baseVolume = 1, instances = [0]\<rparr>,
          \<lparr>buffer = music_buffer, maxSources = 2, baseVolume = 1 / 2, instances = []\<rparr>],
       soundInstances := [0],
       instance_heap :=
         [started 0 0 (new_instance 0 click_buffer 0 False None 0 None
            \<lparr>gain_value = 1, gain_events = [], gain_output = Some MasterGain\<rparr>)]\<rparr>"
  by (simp add: click_once_def loaded_eq ready_eq model_defs)


lemma click_fading_eq:
  "click_fading =
     click_once\<lparr>instance_heap :=
       [\<lparr>source = (instance_source click_buffer False 0)
           \<lparr>onended := Some \<lparr>handler_sound = 0, handler_callback = None\<rparr>,
            start_call := Some (0, 0), stop_calls := [3]\<rparr>,
         gain = \<lparr>gain_value = 1,
           gain_events = [SetValueAtTime 1 1, ExponentialRampToValueAtTime (1 / 10000) 3],
           gain_output = Some MasterGain\<rparr>,
         tag = None, stopping = True, startTime = 0\<rparr>]\<rparr>"
  by (simp add: click_fading_def click_once_eq loaded_eq ready_eq model_defs)



lemma click_a_eq:
  "click_a =
     loaded\<lparr>sound_heap :=
         [\<lparr>buffer = click_buffer, maxSources = 1, baseVolume = 1, instances = [0]\<rparr>,
          \<lparr>buffer = music_buffer, maxSources = 2, baseVolume = 1 / 2, instances = []\<rparr>],
       soundInstances := [0],
       instance_heap :=
         [started 0 0 (new_instance 0 click_buffer 0 False (Some ''a'') 0 None
            \<lparr>gain_value = 1, gain_events = [], gain_output = Some MasterGain\<rparr>)]\<rparr>"
  by (simp add: click_a_def loaded_eq ready_eq model_defs)

lemma click_unstarted_eq:
  "click_unstarted =
     loaded\<lparr>sound_heap :=
         [\<lparr>buffer = click_buffer, maxSources = 1, baseVolume = 1, instances = [0]\<rparr>,
          \<lparr>buffer = music_buffer, maxSources = 2, baseVolume = 1 / 2, instances = []\<rparr>],
       soundInstances := [0],
       instance_heap :=
         [new_instance 0 click_buffer 0 False None (- 1) None
            \<lparr>gain_value = 1, gain_events = [], gain_output = Some MasterGain\<rparr>]\<rparr>"
  by (simp add: click_unstarted_def loaded_eq ready_eq model_defs)

lemma reachable_ready: "reachable ready"
  unfolding ready_def by (rule reach_create) (rule reach_initial)

lemma reachable_loaded: "reachable loaded"
  unfolding loaded_def by (rule reach_load, rule reach_load) (rule reachable_ready)

lemma reachable_click_once: "reachable click_once"
  unfolding click_once_def by (rule reach_play) (rule reachable_loaded)

lemma reachable_click_twice: "reachable click_twice"
  unfolding click_twice_def by (rule reach_play) (rule reachable_click_once)

lemma reachable_click_fading: "reachable click_fading"
  unfolding click_fading_def by (rule reach_stop) (rule reachable_click_once)



lemma reachable_click_a: "reachable click_a"
  unfolding click_a_def by (rule reach_play) (rule reachable_loaded)

lemma reachable_click_a_b: "reachable click_a_b"
  unfolding click_a_b_def by (rule reach_play) (rule reachable_click_a)

lemma reachable_click_unstarted: "reachable click_unstarted"
  unfolding click_unstarted_def by (rule reach_play) (rule reachable_loaded)

subsection \<open>The global volume and the connection of the master gain\<close>

lemma createAudioContext_created:
  "ac s = None \<Longrightarrow> context_created (snd (createAudioContext a d fresh s))"
  by (simp add: createAudioContext_def setGlobalVolume_def getAudioContext_def
      context_created_def createGain_def connect_def disconnect_def Let_def
      split: option.splits)

lemma setGlobalVolume_created:
  assumes "context_created s"
  shows "fst (setGlobalVolume v s) = Inr () \<and> context_created (snd (setGlobalVolume v s)) \<and>
    destinationNode (snd (setGlobalVolume v s)) = destinationNode s \<and>
    volume (snd (setGlobalVolume v s)) = v \<and>
    gainConnected (snd (setGlobalVolume v s)) = Some (0 < v) \<and>
    (\<exists>g. masterGain (snd (setGlobalVolume v s)) = Some g \<and> gain_value g = v \<and>
       gain_output g = (if 0 < v then destinationNode s else None))"
  using assms
  by (auto simp add: setGlobalVolume_def getAudioContext_def context_created_def
      connect_def disconnect_def Let_def split: option.splits)

lemma setGlobalVolumes_created:
  "context_created s \<Longrightarrow> context_created (setGlobalVolumes vs s) \<and>
     destinationNode (setGlobalVolumes vs s) = destinationNode s"
  by (induction vs arbitrary: s) (simp_all add: setGlobalVolume_created)

lemma setGlobalVolumes_append:
  "setGlobalVolumes (vs @ ws) s = setGlobalVolumes ws (setGlobalVolumes vs s)"
  by (induction vs arbitrary: s) simp_all

text \<open>
  Claim C6. Once the context is created, after any run of calls of
  \<^verbatim>\<open>setGlobalVolume\<close> that ends with \<^verbatim>\<open>setGlobalVolume(v)\<close>, the last call returns
  normally, the master gain's value is \<open>v\<close>, the tracked flag \<^verbatim>\<open>#gainConnected\<close> is
  true exactly when \<open>0 < v\<close> and false exactly when \<open>v \<le> 0\<close>, and the master gain node
  is connected to the destination in the first case and to nothing in the second.
\<close>

theorem setGlobalVolume_connection:
  assumes "context_created s"
  shows "fst (setGlobalVolume v (setGlobalVolumes vs s)) = Inr () \<and>
    volume (setGlobalVolumes (vs @ [v]) s) = v \<and>
    gainConnected (setGlobalVolumes (vs @ [v]) s) = Some (0 < v) \<and>
    (\<exists>g. masterGain (setGlobalVolumes (vs @ [v]) s) = Some g \<and> gain_value g = v \<and>
       gain_output g = (if 0 < v then destinationNode s else None)) \<and>
    context_created (setGlobalVolumes (vs @ [v]) s)"
proof -
  have c: "context_created (setGlobalVolumes vs s)"
    and d: "destinationNode (setGlobalVolumes vs s) = destinationNode s"
    using assms setGlobalVolumes_created by blast+
  show ?thesis
    using setGlobalVolume_created [OF c, of v] d
    by (auto simp add: setGlobalVolumes_append)
qed

text \<open>
  The volume set to 0 and then to one half, after \<^verbatim>\<open>createAudioContext()\<close> on the
  initial state: the master gain is connected to the context's destination again.
\<close>

theorem setGlobalVolume_connection_witness:
  "context_created (snd (createAudioContext None None Suspended initial)) \<and>
   gainConnected (setGlobalVolumes [0] (snd (createAudioContext None None Suspended initial)))
     = Some False \<and>
   gainConnected (setGlobalVolumes ([0] @ [1 / 2])
       (snd (createAudioContext None None Suspended initial))) = Some True \<and>
   (\<exists>g. masterGain (setGlobalVolumes ([0] @ [1 / 2])
       (snd (createAudioContext None None Suspended initial))) = Some g \<and>
      gain_value g = 1 / 2 \<and> gain_output g = Some ContextDestination)"
proof -
  have c: "context_created (snd (createAudioContext None None Suspended initial))"
    by (rule createAudioContext_created) (simp add: initial_def)
  have d: "destinationNode (snd (createAudioContext None None Suspended initial))
      = Some ContextDestination"
    by (simp add: createAudioContext_def setGlobalVolume_def getAudioContext_def
        initial_def createGain_def connect_def Let_def)
  show ?thesis
    using c d setGlobalVolume_connection [OF c, of 0 "[]"]
      setGlobalVolume_connection [OF c, of "1 / 2" "[0]"]
    by simp
qed

subsection \<open>Eviction of the oldest instance\<close>


lemma evict_nth:
  "i < length (instance_heap s) \<Longrightarrow>
   instance_heap (evict i s) ! i =
     (instance_heap s ! i)
       \<lparr>source := (source (instance_heap s ! i))
          \<lparr>stop_calls := stop_calls (source (instance_heap s ! i)) @ [0]\<rparr>\<rparr>"
  by (simp add: evict_def source_stop_def)

lemma push_instance_old:
  "j < length (instance_heap s) \<Longrightarrow>
   instance_heap (push_instance sid inst s) ! j = instance_heap s ! j"
  by (simp add: push_instance_def nth_append)

text \<open>
  \<^verbatim>\<open>play\<close> on a sound whose list is full, with \<^verbatim>\<open>stopOldestIfMax = true\<close>, when
  the source of the oldest instance was started: the state it returns, whether the gain
  node could be built and the new source started or not.
\<close>

lemma play_full:
  assumes "ac s \<noteq> None" and "map_of (sounds s) soundName = Some sid"
    and "0 < maxSources (sound_heap s ! sid)"
    and "maxSources (sound_heap s ! sid) \<le> int (length (instances (sound_heap s ! sid)))"
    and "start_call (source (instance_heap s ! hd (instances (sound_heap s ! sid)))) \<noteq> None"
  shows "play product now soundName vol loop tg offset fadeIn True cb s =
    (case instance_gain now fadeIn (product (baseVolume (sound_heap s ! sid)) vol) of
       Inl e \<Rightarrow> (Inl e, evict (hd (instances (sound_heap s ! sid))) s)
     | Inr g \<Rightarrow>
         if now < 0 \<or> offset < 0
         then (Inl RangeError,
               push_instance sid
                 (new_instance sid (buffer (sound_heap s ! sid)) now loop tg offset cb g)
                 (evict (hd (instances (sound_heap s ! sid))) s))
         else (Inr (Some (length (instance_heap s))),
               push_instance sid
                 (started now offset
                    (new_instance sid (buffer (sound_heap s ! sid)) now loop tg offset cb g))
                 (evict (hd (instances (sound_heap s ! sid))) s)))"
  using play_proceeds [OF assms(1-3), of True product now vol loop tg offset fadeIn cb]
    assms(4,5)
  by (simp add: Let_def)

text \<open>
  \<^verbatim>\<open>play\<close> on a sound whose list is full, with \<^verbatim>\<open>stopOldestIfMax = true\<close>, when
  the source of the oldest instance was never started: \<^verbatim>\<open>source.stop()\<close> throws and
  nothing has changed.
\<close>

lemma play_full_unstarted:
  assumes "ac s \<noteq> None" and "map_of (sounds s) soundName = Some sid"
    and "0 < maxSources (sound_heap s ! sid)"
    and "maxSources (sound_heap s ! sid) \<le> int (length (instances (sound_heap s ! sid)))"
    and "start_call (source (instance_heap s ! hd (instances (sound_heap s ! sid)))) = None"
  shows "play product now soundName vol loop tg offset fadeIn True cb s
    = (Inl InvalidStateError, s)"
  using play_proceeds [OF assms(1-3), of True product now vol loop tg offset fadeIn cb]
    assms(4,5)
  by (simp add: Let_def)

text \<open>
  What the well-formedness of a state says about an instance that is in a sound's list:
  it lives on the heap, it is not released, its end handler holds that sound, and it
  occurs once in that list and once in the global list.
\<close>

lemma listed_instance_live:
  assumes "wf_state s" and "sid < length (sound_heap s)"
    and "i \<in> set (instances (sound_heap s ! sid))"
  shows "i < length (instance_heap s) \<and> \<not> released s i \<and>
    (\<exists>h. onended (source (instance_heap s ! i)) = Some h \<and> handler_sound h = sid) \<and>
    count_list (instances (sound_heap s ! sid)) i = 1 \<and>
    count_list (soundInstances s) i = 1"
proof -
  have i: "i < length (instance_heap s)"
    using assms by (auto simp add: wf_state_def)
  then have t: "tracked s i"
    using assms(1) by (simp add: wf_state_def)
  have "count_list (instances (sound_heap s ! sid)) i \<noteq> 0"
    using assms(3) by (simp add: count_list_0_iff)
  then show ?thesis
    using t i assms(2) unfolding tracked_iff
    by (metis (no_types, lifting))
qed




subsection \<open>Eviction and the stopping flag\<close>

lemma isTagPlaying_iff:
  "isTagPlaying t s \<longleftrightarrow>
     (\<exists>j \<in> set (soundInstances s).
        \<not> stopping (instance_heap s ! j) \<and> tag (instance_heap s ! j) = t)"
  by (simp add: isTagPlaying_def list_ex_iff)

text \<open>
  Claim C9. Let \<^verbatim>\<open>play\<close> be called with \<^verbatim>\<open>stopOldestIfMax = true\<close> on a sound whose
  list is full, in a reachable state, and let \<open>inst\<close> be the first instance of that list.
  The eviction is \<^verbatim>\<open>inst.source.stop()\<close> and nothing else. If the source of \<open>inst\<close> was
  never started, that call throws and \<^verbatim>\<open>play\<close> ends there with nothing changed.
  Otherwise, whether \<open>inst\<close> is already stopping or not and whether the rest of
  \<^verbatim>\<open>play\<close> succeeds or throws, \<open>inst\<close> gets one more stop request at once and is
  otherwise as it was, its \<^verbatim>\<open>stopping\<close> flag included. When no other listed instance
  counts for the tag of \<open>inst\<close> and the new instance has another tag, the answer of
  \<^verbatim>\<open>isTagPlaying\<close> for that tag is decided by \<open>inst\<close> alone: after the call it is
  true exactly when \<open>inst\<close> was not stopping; once the platform has dispatched
  \<^verbatim>\<open>ended\<close> to \<open>inst\<close> and its handler has run to its end, it is false; and when the
  handler is cut short by a throwing callback it stays what it was.
\<close>

theorem play_evicts_regardless_of_stopping:
  assumes "reachable s" and "ac s \<noteq> None" and "map_of (sounds s) soundName = Some sid"
    and "0 < maxSources (sound_heap s ! sid)"
    and "maxSources (sound_heap s ! sid) \<le> int (length (instances (sound_heap s ! sid)))"
    and "oldest = hd (instances (sound_heap s ! sid))"
    and "inst = instance_heap s ! oldest"
    and "s' = snd (play product now soundName vol loop tg offset fadeIn True cb s)"
  shows "(start_call (source inst) = None \<longrightarrow>
      play product now soundName vol loop tg offset fadeIn True cb s
        = (Inl InvalidStateError, s)) \<and>
    (start_call (source inst) \<noteq> None \<longrightarrow>
      instance_heap s' ! oldest =
        inst\<lparr>source := (source inst)\<lparr>stop_calls := stop_calls (source inst) @ [0]\<rparr>\<rparr> \<and>
      stopping (instance_heap s' ! oldest) = stopping inst \<and>
      (tg \<noteq> tag inst \<and>
       (\<forall>j \<in> set (soundInstances s). j \<noteq> oldest \<longrightarrow>
          stopping (instance_heap s ! j) \<or> tag (instance_heap s ! j) \<noteq> tag inst) \<longrightarrow>
         isTagPlaying (tag inst) s' = (\<not> stopping inst) \<and>
         (\<not> has_ended (source inst) \<longrightarrow>
            ended_possible s' oldest \<and>
            \<not> isTagPlaying (tag inst) (ended_event oldest Returns s') \<and>
            (\<forall>h c. onended (source inst) = Some h \<and> handler_callback h = Some c \<longrightarrow>
               isTagPlaying (tag inst) (ended_event oldest Throws s')
                 = (\<not> stopping inst)))))"
proof (intro conjI impI)
  assume "start_call (source inst) = None"
  then show "play product now soundName vol loop tg offset fadeIn True cb s
      = (Inl InvalidStateError, s)"
    using play_full_unstarted [OF assms(2-5)] by (simp add: assms(6,7))
next
  let ?snd = "sound_heap s ! sid"
  let ?e = "evict oldest s"
  let ?n = "length (instance_heap s)"
  let ?t = "tag inst"
  have wf: "wf_state s"
    using assms(1) by (rule reachable_wf)
  have sid: "sid < length (sound_heap s)"
    using wf assms(3) by (simp add: wf_state_def)
  have "instances ?snd \<noteq> []"
    using assms(4,5) by auto
  then have mem: "oldest \<in> set (instances ?snd)"
    by (simp add: assms(6))
  have live: "oldest < ?n"
    and once: "count_list (soundInstances s) oldest = 1"
    and "\<exists>h. onended (source (instance_heap s ! oldest)) = Some h \<and> handler_sound h = sid"
    using listed_instance_live [OF wf sid mem] by simp_all
  then obtain h where h: "onended (source inst) = Some h" "handler_sound h = sid"
    unfolding assms(7) by blast
  have listed: "j < ?n" if "j \<in> set (soundInstances s)" for j
    using wf that by (simp add: wf_state_def)
  have oldest_listed: "oldest \<in> set (soundInstances s)"
    using once by (metis count_list_0_iff zero_neq_one)
  assume st: "start_call (source inst) \<noteq> None"
  have e: "instance_heap ?e ! oldest =
      inst\<lparr>source := (source inst)\<lparr>stop_calls := stop_calls (source inst) @ [0]\<rparr>\<rparr>"
    unfolding assms(7) using live by (rule evict_nth)
  have lt: "oldest < length (instance_heap ?e)"
    using live by (simp add: length_evict)
  have st': "start_call (source (instance_heap s ! hd (instances ?snd))) \<noteq> None"
    using st by (simp add: assms(6,7))
  have shape: "s' = ?e \<or> (\<exists>new. s' = push_instance sid new ?e \<and> tag new = tg)"
    unfolding assms(8) play_full [OF assms(2-5) st'] assms(6)
    by (cases "instance_gain now fadeIn (product (baseVolume ?snd) vol)")
      (auto simp add: new_instance_def started_def)
  have same: "instance_heap s' ! j = instance_heap ?e ! j" if "j < ?n" for j
    using shape that push_instance_old [of j ?e] by (auto simp add: length_evict)
  have eq: "instance_heap s' ! oldest =
      inst\<lparr>source := (source inst)\<lparr>stop_calls := stop_calls (source inst) @ [0]\<rparr>\<rparr>"
    using same [OF live] e by simp
  show "instance_heap s' ! oldest =
      inst\<lparr>source := (source inst)\<lparr>stop_calls := stop_calls (source inst) @ [0]\<rparr>\<rparr>"
    by (rule eq)
  show "stopping (instance_heap s' ! oldest) = stopping inst"
    by (simp add: eq)
  have flags: "stopping (instance_heap s' ! j) = stopping (instance_heap s ! j) \<and>
      tag (instance_heap s' ! j) = tag (instance_heap s ! j)" if "j < ?n" for j
    using same [OF that] that by (cases "j = oldest") (simp_all add: evict_def)
  have lists: "soundInstances s' = soundInstances s \<or>
      soundInstances s' = soundInstances s @ [?n] \<and> tag (instance_heap s' ! ?n) = tg"
    using shape by (auto simp add: push_instance_def evict_def nth_append)
  have len': "?n \<le> length (instance_heap s')"
    using shape by (auto simp add: push_instance_def evict_def)
  assume only: "tg \<noteq> tag inst \<and>
      (\<forall>j \<in> set (soundInstances s). j \<noteq> oldest \<longrightarrow>
         stopping (instance_heap s ! j) \<or> tag (instance_heap s ! j) \<noteq> tag inst)"
  have counts: "\<not> stopping (instance_heap s' ! j) \<and> tag (instance_heap s' ! j) = ?t
      \<longleftrightarrow> j = oldest \<and> \<not> stopping inst" if "j \<in> set (soundInstances s')" for j
  proof (cases "j \<in> set (soundInstances s)")
    case True
    then show ?thesis
      using flags [OF listed [OF True]] only by (auto simp add: assms(7))
  next
    case False
    then have "j = ?n \<and> tag (instance_heap s' ! ?n) = tg"
      using that lists by auto
    then show ?thesis
      using only live by auto
  qed
  have in': "oldest \<in> set (soundInstances s')"
    using lists oldest_listed by auto
  show now': "isTagPlaying (tag inst) s' = (\<not> stopping inst)"
    unfolding isTagPlaying_iff using counts in' by blast
  assume ne: "\<not> has_ended (source inst)"
  have lt': "oldest < length (instance_heap s')"
    using live len' by simp
  show "ended_possible s' oldest"
    using lt' st ne by (simp add: ended_possible_def eq)
  have h': "onended (source (instance_heap s' ! oldest)) = Some h"
    using h(1) by (simp add: eq)
  have once': "count_list (soundInstances s') oldest = 1"
    using lists once live by auto
  have gone: "oldest \<notin> set (remove1 oldest (soundInstances s'))"
    using once' by (simp add: count_list_0_iff [symmetric])
  have "\<not> (\<not> stopping (instance_heap (ended_event oldest Returns s') ! j) \<and>
      tag (instance_heap (ended_event oldest Returns s') ! j) = ?t)"
    if "j \<in> set (soundInstances (ended_event oldest Returns s'))" for j
  proof -
    have j: "j \<in> set (remove1 oldest (soundInstances s'))"
      using that by (simp add: ended_event_released [OF h' lt'])
    then have "j \<noteq> oldest" and j': "j \<in> set (soundInstances s')"
      using gone set_remove1_subset [of oldest "soundInstances s'"] by auto
    then have "instance_heap (ended_event oldest Returns s') ! j = instance_heap s' ! j"
      by (simp add: ended_event_released [OF h' lt'])
    then show ?thesis
      using counts [OF j'] \<open>j \<noteq> oldest\<close> by simp
  qed
  then show "\<not> isTagPlaying (tag inst) (ended_event oldest Returns s')"
    unfolding isTagPlaying_iff by blast
  show "\<forall>h c. onended (source inst) = Some h \<and> handler_callback h = Some c \<longrightarrow>
      isTagPlaying (tag inst) (ended_event oldest Throws s') = (\<not> stopping inst)"
  proof (intro allI impI)
    fix k c assume "onended (source inst) = Some k \<and> handler_callback k = Some c"
    then have c: "handler_callback h = Some c"
      using h(1) by simp
    have "stopping (instance_heap (ended_event oldest Throws s') ! j)
        = stopping (instance_heap s' ! j) \<and>
      tag (instance_heap (ended_event oldest Throws s') ! j) = tag (instance_heap s' ! j)" for j
      using lt' by (cases "j = oldest") (simp_all add: ended_event_threw [OF h' lt' c])
    moreover have "soundInstances (ended_event oldest Throws s') = soundInstances s'"
      by (simp add: ended_event_threw [OF h' lt' c])
    ultimately have "isTagPlaying (tag inst) (ended_event oldest Throws s')
        = isTagPlaying (tag inst) s'"
      unfolding isTagPlaying_iff by simp
    then show "isTagPlaying (tag inst) (ended_event oldest Throws s') = (\<not> stopping inst)"
      using now' by simp
  qed
qed

text \<open>
  \<^verbatim>\<open>click\<close> allows one source. Its only instance, tagged \<^verbatim>\<open>'a'\<close> and not stopping,
  is evicted by \<^verbatim>\<open>play('click', 1, false, 'b')\<close>: \<^verbatim>\<open>isTagPlaying('a')\<close> is still
  true after the call, and false after the \<^verbatim>\<open>ended\<close> event. When the only instance
  is fading out (stop scheduled at time 3), the eviction gives it a second stop request.
  And when the source of the only instance was never started, \<^verbatim>\<open>play\<close> throws.
\<close>

theorem play_evicts_regardless_of_stopping_witness:
  "reachable click_a \<and> ac click_a \<noteq> None \<and> map_of (sounds click_a) ''click'' = Some 0 \<and>
   maxSources (sound_heap click_a ! 0) = 1 \<and> instances (sound_heap click_a ! 0) = [0] \<and>
   tag (instance_heap click_a ! 0) = Some ''a'' \<and>
   \<not> stopping (instance_heap click_a ! 0) \<and>
   stop_calls (source (instance_heap click_a_b ! 0)) = [0] \<and>
   \<not> stopping (instance_heap click_a_b ! 0) \<and>
   isTagPlaying (Some ''a'') click_a_b \<and>
   ended_possible click_a_b 0 \<and>
   \<not> isTagPlaying (Some ''a'') (ended_event 0 Returns click_a_b) \<and>
   stopping (instance_heap click_fading ! 0) \<and>
   stop_calls (source (instance_heap click_fading ! 0)) = [3] \<and>
   stop_calls (source (instance_heap
       (snd (play times 2 ''click'' 1 False (Some ''b'') 0 0 True None click_fading)) ! 0))
     = [3, 0] \<and>
   \<not> isTagPlaying None
       (snd (play times 2 ''click'' 1 False (Some ''b'') 0 0 True None click_fading)) \<and>
   start_call (source (instance_heap click_unstarted ! 0)) = None \<and>
   play times 1 ''click'' 1 False None 0 0 True None click_unstarted
     = (Inl InvalidStateError, click_unstarted)"
proof -
  have a: "ac click_a \<noteq> None" "map_of (sounds click_a) ''click'' = Some 0"
    "0 < maxSources (sound_heap click_a ! 0)"
    "maxSources (sound_heap click_a ! 0) \<le> int (length (instances (sound_heap click_a ! 0)))"
    "0 = hd (instances (sound_heap click_a ! 0))"
    by (simp_all add: click_a_eq loaded_eq ready_eq)
  have b: "ac click_fading \<noteq> None" "map_of (sounds click_fading) ''click'' = Some 0"
    "0 < maxSources (sound_heap click_fading ! 0)"
    "maxSources (sound_heap click_fading ! 0)
       \<le> int (length (instances (sound_heap click_fading ! 0)))"
    "0 = hd (instances (sound_heap click_fading ! 0))"
    by (simp_all add: click_fading_eq click_once_eq loaded_eq ready_eq)
  have c: "ac click_unstarted \<noteq> None" "map_of (sounds click_unstarted) ''click'' = Some 0"
    "0 < maxSources (sound_heap click_unstarted ! 0)"
    "maxSources (sound_heap click_unstarted ! 0)
       \<le> int (length (instances (sound_heap click_unstarted ! 0)))"
    "0 = hd (instances (sound_heap click_unstarted ! 0))"
    by (simp_all add: click_unstarted_eq loaded_eq ready_eq)
  have ab: "click_a_b = snd (play times 1 ''click'' 1 False (Some ''b'') 0 0 True None click_a)"
    by (simp add: click_a_b_def)
  have d: "maxSources (sound_heap click_a ! 0) = 1 \<and> instances (sound_heap click_a ! 0) = [0] \<and>
      soundInstances click_a = [0] \<and>
      tag (instance_heap click_a ! 0) = Some ''a'' \<and>
      \<not> stopping (instance_heap click_a ! 0) \<and>
      start_call (source (instance_heap click_a ! 0)) = Some (0, 0) \<and>
      \<not> has_ended (source (instance_heap click_a ! 0)) \<and>
      stop_calls (source (instance_heap click_a ! 0)) = []"
    by (simp add: click_a_eq loaded_eq ready_eq new_instance_def started_def
        instance_source_def createBufferSource_def)
  have e: "soundInstances click_fading = [0] \<and>
      tag (instance_heap click_fading ! 0) = None \<and>
      stopping (instance_heap click_fading ! 0) \<and>
      start_call (source (instance_heap click_fading ! 0)) = Some (0, 0) \<and>
      stop_calls (source (instance_heap click_fading ! 0)) = [3]"
    by (simp add: click_fading_eq click_once_eq loaded_eq ready_eq instance_source_def
        createBufferSource_def)
  have f: "start_call (source (instance_heap click_unstarted ! 0)) = None"
    by (simp add: click_unstarted_eq loaded_eq ready_eq new_instance_def
        instance_source_def createBufferSource_def)
  show ?thesis
    using reachable_click_a a(1,2) d e f
      play_evicts_regardless_of_stopping [where product = times and s = click_a
        and s' = click_a_b and sid = 0, OF reachable_click_a a refl ab]
      play_evicts_regardless_of_stopping [where product = times and s = click_fading
        and sid = 0 and now = 2 and soundName = "''click''" and vol = 1 and loop = False
        and tg = "Some ''b''" and offset = 0 and fadeIn = 0 and cb = None,
        OF reachable_click_fading b refl refl]
      play_evicts_regardless_of_stopping [where product = times and s = click_unstarted
        and sid = 0 and now = 1 and soundName = "''click''" and vol = 1 and loop = False
        and tg = None and offset = 0 and fadeIn = 0 and cb = None,
        OF reachable_click_unstarted c refl refl]
    by simp
qed

subsection \<open>Playing at the cap without eviction\<close>

text \<open>
  Claim C4. With the context created and the sound loaded: if the sound's
  \<^verbatim>\<open>maxSources\<close> is zero (or less), or its instance list already holds
  \<^verbatim>\<open>maxSources\<close> instances or more and \<^verbatim>\<open>stopOldestIfMax\<close> is false, then
  \<^verbatim>\<open>play\<close> returns \<^verbatim>\<open>null\<close>, not an error, and the whole state (every instance,
  every sound's instance list and the global list) is unchanged.
\<close>

theorem play_returns_null:
  assumes "ac s \<noteq> None" and "map_of (sounds s) soundName = Some sid"
    and "maxSources (sound_heap s ! sid) \<le> 0 \<or>
      (maxSources (sound_heap s ! sid) \<le> int (length (instances (sound_heap s ! sid))) \<and>
       \<not> stopOldest)"
  shows "play product now soundName vol loop tg offset fadeIn stopOldest cb s = (Inr None, s)"
  using assms by (auto simp add: play_def getAudioContext_def Let_def)

text \<open>
  \<^verbatim>\<open>click\<close> allows one source and one instance of it is playing: a second
  \<^verbatim>\<open>play\<close> with \<^verbatim>\<open>stopOldestIfMax = false\<close> returns \<^verbatim>\<open>null\<close> and the first
  instance is still the only one listed.
\<close>

theorem play_returns_null_witness:
  "ac click_once \<noteq> None \<and> map_of (sounds click_once) ''click'' = Some 0 \<and>
   maxSources (sound_heap click_once ! 0) = 1 \<and>
   instances (sound_heap click_once ! 0) = [0] \<and>
   play times 1 ''click'' 1 False None 0 0 False None click_once = (Inr None, click_once) \<and>
   soundInstances (snd (play times 1 ''click'' 1 False None 0 0 False None click_once)) = [0]"
proof -
  have a: "ac click_once \<noteq> None" and b: "map_of (sounds click_once) ''click'' = Some 0"
    and c: "maxSources (sound_heap click_once ! 0) \<le> 0 \<or>
      (maxSources (sound_heap click_once ! 0)
         \<le> int (length (instances (sound_heap click_once ! 0))) \<and> \<not> False)"
    by (simp_all add: click_once_eq loaded_eq ready_eq)
  show ?thesis
    using play_returns_null [OF a b c, where product = times and now = 1 and vol = 1
        and loop = False and tg = None and offset = 0 and fadeIn = 0 and cb = None]
    by (simp add: click_once_eq loaded_eq ready_eq)
qed

subsection \<open>Stopping\<close>





text \<open>
  Claim C8. \<^verbatim>\<open>stop\<close> changes neither the sound table, nor any sound's instance list,
  nor the global list, and it allocates nothing. Of an instance it changes at most the
  \<^verbatim>\<open>stopping\<close> flag, the stop requests recorded on its source node and the events
  scheduled on its gain node; tag, start time and everything else on the two nodes stay.
  So a sound whose list is full is still full after \<^verbatim>\<open>stop\<close>: while its instances are
  fading out, \<^verbatim>\<open>play\<close> without eviction still returns \<^verbatim>\<open>null\<close>.
\<close>

theorem stop_keeps_lists:
  assumes "s' = snd (stop now current tg fadeOut s)"
  shows "sounds s' = sounds s \<and> sound_heap s' = sound_heap s \<and>
    soundInstances s' = soundInstances s \<and> callback_log s' = callback_log s \<and>
    length (instance_heap s') = length (instance_heap s) \<and>
    (\<forall>i < length (instance_heap s).
       tag (instance_heap s' ! i) = tag (instance_heap s ! i) \<and>
       startTime (instance_heap s' ! i) = startTime (instance_heap s ! i) \<and>
       source (instance_heap s' ! i) =
         (source (instance_heap s ! i))\<lparr>stop_calls := stop_calls (source (instance_heap s' ! i))\<rparr> \<and>
       gain (instance_heap s' ! i) =
         (gain (instance_heap s ! i))\<lparr>gain_events := gain_events (gain (instance_heap s' ! i))\<rparr>) \<and>
    (ac s \<noteq> None \<and> map_of (sounds s) soundName = Some sid \<and>
     maxSources (sound_heap s ! sid) \<le> int (length (instances (sound_heap s ! sid))) \<longrightarrow>
       play product now' soundName vol loop tg' offset fadeIn False cb s' = (Inr None, s'))"
proof (cases "ac s")
  case None
  then have "s' = s"
    by (simp add: assms stop_def getAudioContext_def)
  then show ?thesis
    using None by simp
next
  case (Some c)
  let ?l = "snd (stop_loop now current tg fadeOut (rev (soundInstances s)) (instance_heap s))"
  have s': "s' = s\<lparr>instance_heap := ?l\<rparr>"
    using Some by (simp add: assms stop_state)
  have len: "length ?l = length (instance_heap s)"
    using stop_loop_frame by blast
  have each: "tag (?l ! i) = tag (instance_heap s ! i) \<and>
      startTime (?l ! i) = startTime (instance_heap s ! i) \<and>
      source (?l ! i) = (source (instance_heap s ! i))\<lparr>stop_calls := stop_calls (source (?l ! i))\<rparr> \<and>
      gain (?l ! i) = (gain (instance_heap s ! i))\<lparr>gain_events := gain_events (gain (?l ! i))\<rparr>"
    if "i < length (instance_heap s)" for i
  proof -
    have "stop_touched (?l ! i) (instance_heap s ! i)"
      using that
        stop_loop_frame [of now current tg fadeOut "rev (soundInstances s)" "instance_heap s"]
      by simp
    then show ?thesis
      by (auto simp add: stop_touched_def)
  qed
  have cap: "play product now' soundName vol loop tg' offset fadeIn False cb s' = (Inr None, s')"
    if "map_of (sounds s) soundName = Some sid"
      and "maxSources (sound_heap s ! sid) \<le> int (length (instances (sound_heap s ! sid)))"
    using that Some by (simp add: s' play_def getAudioContext_def Let_def)
  show ?thesis
    using each cap len by (simp add: s')
qed

text \<open>
  The only instance of \<^verbatim>\<open>click\<close> is fading out after \<^verbatim>\<open>stop(null, 2)\<close>: it is still
  in both lists, and \<^verbatim>\<open>play('click')\<close> with \<^verbatim>\<open>stopOldestIfMax = false\<close> returns
  \<^verbatim>\<open>null\<close>.
\<close>

theorem stop_keeps_lists_witness:
  "ac click_once \<noteq> None \<and> map_of (sounds click_once) ''click'' = Some 0 \<and>
   maxSources (sound_heap click_once ! 0) = 1 \<and> instances (sound_heap click_once ! 0) = [0] \<and>
   stopping (instance_heap click_fading ! 0) \<and>
   instances (sound_heap click_fading ! 0) = [0] \<and> soundInstances click_fading = [0] \<and>
   startTime (instance_heap click_fading ! 0) = 0 \<and>
   play times 2 ''click'' 1 False None 0 0 False None click_fading = (Inr None, click_fading)"
proof -
  have a: "click_fading = snd (stop 1 (\<lambda>i. 1) None 2 click_once)"
    by (simp add: click_fading_def)
  have b: "ac click_once \<noteq> None \<and> map_of (sounds click_once) ''click'' = Some 0 \<and>
      maxSources (sound_heap click_once ! 0) = 1 \<and> instances (sound_heap click_once ! 0) = [0] \<and>
      soundInstances click_once = [0] \<and> startTime (instance_heap click_once ! 0) = 0 \<and>
      length (instance_heap click_once) = 1"
    by (simp add: click_once_eq loaded_eq ready_eq new_instance_def started_def)
  have c: "stopping (instance_heap click_fading ! 0)"
    by (simp add: click_fading_eq)
  show ?thesis
    using b c stop_keeps_lists [OF a, where soundName = "''click''" and sid = 0 and product = times and now' = 2
        and vol = 1 and loop = False and tg' = None and offset = 0 and fadeIn = 0 and cb = None]
    by simp
qed

subsection \<open>Playing a sound that was never loaded\<close>

text \<open>
  Claim C7. When the name is not in the sound table, \<^verbatim>\<open>play\<close> throws and leaves the
  state as it was, so no instance is created; it never returns \<^verbatim>\<open>null\<close>. With the
  context created (the precondition of every operation), the error thrown is the lookup
  error \<^verbatim>\<open>Sound "name" does not exist\<close>.
\<close>

theorem play_unknown_sound:
  assumes "map_of (sounds s) soundName = None"
  shows "(\<exists>e. play product now soundName vol loop tg offset fadeIn stopOldest cb s = (Inl e, s)) \<and>
    (ac s \<noteq> None \<longrightarrow>
       play product now soundName vol loop tg offset fadeIn stopOldest cb s
         = (Inl (sound_missing soundName), s))"
  using assms by (simp add: play_def getAudioContext_def split: option.splits)

text \<open>\<^verbatim>\<open>play('missing')\<close> on the empty sound table, after \<^verbatim>\<open>createAudioContext()\<close>.\<close>

theorem play_unknown_sound_witness:
  "map_of (sounds ready) ''missing'' = None \<and> ac ready \<noteq> None \<and>
   play times 0 ''missing'' 1 False None 0 0 True None ready
     = (Inl (Error (''Sound '' @ [CHR 0x22] @ ''missing'' @ [CHR 0x22] @ '' does not exist'')),
        ready) \<and>
   instance_heap (snd (play times 0 ''missing'' 1 False None 0 0 True None ready)) = []"
proof -
  have a: "map_of (sounds ready) ''missing'' = None" and b: "ac ready \<noteq> None"
    by (simp_all add: ready_eq)
  show ?thesis
    using a b play_unknown_sound [OF a, where product = times and now = 0 and vol = 1
        and loop = False and tg = None and offset = 0 and fadeIn = 0 and stopOldest = True
        and cb = None]
    by (simp add: sound_missing_def ready_eq)
qed

subsection \<open>Loading\<close>

lemma load_sound_rejected:
  assumes "\<forall>buf. outcome \<noteq> Decoded buf"
  shows "\<exists>err. load_sound name info time outcome s = (Inl (load_error (sound_url time info) err), s)"
  using assms by (cases outcome) (auto simp add: load_sound_def)

lemma load_sound_decoded:
  "load_sound name info time (Decoded buf) s = (Inr (), set_sound name info buf s)"
  by (simp add: load_sound_def)

lemma load_error_has_url: "\<exists>pre post. load_error url err = Error (pre @ url @ post)"
  unfolding load_error_def by (metis append_assoc)

lemma set_sound_lookup:
  "map_of (sounds (set_sound name info buf s)) name' =
     (if name' = name then Some (length (sound_heap s)) else map_of (sounds s) name')"
  by (simp add: set_sound_def update_conv')

lemma settle_all_heap: "\<exists>ext. sound_heap (settle_all ls s) = sound_heap s @ ext"
proof (induction ls arbitrary: s)
  case Nil
  show ?case by simp
next
  case (Cons l ls)
  obtain ext where "sound_heap (settle_all (l # ls) s) =
      sound_heap (snd (load_sound (load_name l) (load_info l) (load_time l) (load_result l) s))
        @ ext"
    using Cons.IH by fastforce
  then show ?case
    by (cases "load_result l") (simp_all add: load_sound_def set_sound_def)
qed

lemma settle_all_other:
  "name \<notin> load_name ` set ls \<Longrightarrow>
   map_of (sounds (settle_all ls s)) name = map_of (sounds s) name"
proof (induction ls arbitrary: s)
  case Nil
  show ?case by simp
next
  case (Cons l ls)
  then show ?case
    by (cases "load_result l") (simp_all add: load_sound_def set_sound_lookup)
qed

lemma promise_all_rejected:
  assumes "\<forall>l \<in> set finished. \<exists>buf. load_result l = Decoded buf"
    and "\<forall>buf. load_result failed \<noteq> Decoded buf"
  shows "\<exists>err. promise_all (finished @ failed # later) s =
    (Inl (load_error (sound_url (load_time failed) (load_info failed)) err),
     settle_all finished s)"
  using assms(1)
proof (induction finished arbitrary: s)
  case Nil
  obtain err where "load_sound (load_name failed) (load_info failed) (load_time failed)
      (load_result failed) s
    = (Inl (load_error (sound_url (load_time failed) (load_info failed)) err), s)"
    using load_sound_rejected [OF assms(2)] by blast
  then show ?case by auto
next
  case (Cons l ls)
  then obtain buf where "load_result l = Decoded buf"
    by auto
  then show ?case
    using Cons by (simp add: load_sound_decoded)
qed

lemma settle_all_stored:
  assumes "distinct (map load_name ls)" and "l \<in> set ls" and "load_result l = Decoded buf"
  shows "\<exists>sid. map_of (sounds (settle_all ls s)) (load_name l) = Some sid \<and>
    length (sound_heap s) \<le> sid \<and> sid < length (sound_heap (settle_all ls s)) \<and>
    sound_heap (settle_all ls s) ! sid =
      \<lparr>buffer = buf, maxSources = info_maxSources (load_info l),
       baseVolume = info_baseVolume (load_info l), instances = []\<rparr>"
  using assms
proof (induction ls arbitrary: s)
  case Nil
  then show ?case by simp
next
  case (Cons k ls)
  let ?s1 = "snd (load_sound (load_name k) (load_info k) (load_time k) (load_result k) s)"
  have grow: "length (sound_heap s) \<le> length (sound_heap ?s1)"
    by (cases "load_result k") (simp_all add: load_sound_def set_sound_def)
  show ?case
  proof (cases "l = k")
    case True
    let ?n = "length (sound_heap s)"
    have s1: "?s1 = set_sound (load_name l) (load_info l) buf s"
      using True Cons.prems(3) by (simp add: load_sound_decoded)
    have "load_name l \<notin> load_name ` set ls"
      using True Cons.prems(1) by simp
    then have look: "map_of (sounds (settle_all (k # ls) s)) (load_name l) = Some ?n"
      using settle_all_other [of "load_name l" ls ?s1] by (simp add: s1 set_sound_lookup)
    obtain ext where ext: "sound_heap (settle_all ls ?s1) = sound_heap ?s1 @ ext"
      using settle_all_heap by blast
    have "sound_heap (settle_all (k # ls) s) ! ?n =
        \<lparr>buffer = buf, maxSources = info_maxSources (load_info l),
         baseVolume = info_baseVolume (load_info l), instances = []\<rparr> \<and>
      ?n < length (sound_heap (settle_all (k # ls) s))"
      using ext by (simp add: s1 set_sound_def nth_append)
    then show ?thesis
      using look by simp
  next
    case False
    then have "l \<in> set ls" and "distinct (map load_name ls)"
      using Cons.prems by simp_all
    then show ?thesis
      using Cons.IH [of ?s1] Cons.prems(3) grow by fastforce
  qed
qed

text \<open>
  Claim C5. Let the chains of one call of \<^verbatim>\<open>asyncLoadSounds\<close> settle in the order
  \<open>finished\<close>, then \<open>failed\<close>, then \<open>later\<close>, where every chain of \<open>finished\<close> decoded
  its sound and the chain \<open>failed\<close> was rejected (in the fetch, by a response that is not
  \<^verbatim>\<open>ok\<close>, or in the decoding). Then the call is rejected at that point, with an error
  whose message contains the URL of the failed sound; the state at that moment is the one
  in which every chain of \<open>finished\<close> has stored its sound, nothing being undone: each
  name of \<open>finished\<close> is mapped to a new sound object holding the decoded buffer, the
  \<^verbatim>\<open>maxSources\<close> and \<^verbatim>\<open>baseVolume\<close> of its definition and an empty instance list,
  whatever the name was mapped to before, and every other name is mapped as before.
  And in any state, a chain that decodes its sound stores it in this way.
\<close>

theorem asyncLoadSounds_partial:
  assumes "ac s \<noteq> None"
    and "\<forall>l \<in> set finished. \<exists>buf. load_result l = Decoded buf"
    and "\<forall>buf. load_result failed \<noteq> Decoded buf"
    and "distinct (map load_name finished)"
    and "url = sound_url (load_time failed) (load_info failed)"
    and "r = asyncLoadSounds (finished @ failed # later) s"
  shows "(\<exists>pre post. fst r = Inl (Error (pre @ url @ post))) \<and>
    snd r = settle_all finished s \<and>
    (\<forall>l \<in> set finished. \<forall>buf. load_result l = Decoded buf \<longrightarrow>
       (\<exists>sid. map_of (sounds (snd r)) (load_name l) = Some sid \<and>
          length (sound_heap s) \<le> sid \<and> sid < length (sound_heap (snd r)) \<and>
          sound_heap (snd r) ! sid =
            \<lparr>buffer = buf, maxSources = info_maxSources (load_info l),
             baseVolume = info_baseVolume (load_info l), instances = []\<rparr>)) \<and>
    (\<forall>name. name \<notin> load_name ` set finished \<longrightarrow>
       map_of (sounds (snd r)) name = map_of (sounds s) name) \<and>
    fst (load_sound name0 info0 time0 (Decoded buf0) s0) = Inr () \<and>
    map_of (sounds (snd (load_sound name0 info0 time0 (Decoded buf0) s0))) name0
      = Some (length (sound_heap s0)) \<and>
    sound_heap (snd (load_sound name0 info0 time0 (Decoded buf0) s0)) ! length (sound_heap s0)
      = \<lparr>buffer = buf0, maxSources = info_maxSources info0,
         baseVolume = info_baseVolume info0, instances = []\<rparr>"
proof -
  obtain err where "promise_all (finished @ failed # later) s =
      (Inl (load_error url err), settle_all finished s)"
    unfolding assms(5) using promise_all_rejected [OF assms(2,3)] by blast
  then have r: "r = (Inl (load_error url err), settle_all finished s)"
    using assms(1) by (auto simp add: assms(6) asyncLoadSounds_def getAudioContext_def)
  have e: "\<exists>pre post. fst r = Inl (Error (pre @ url @ post))"
    using load_error_has_url [of url err] by (simp add: r)
  have st: "snd r = settle_all finished s"
    by (simp add: r)
  have one: "fst (load_sound name0 info0 time0 (Decoded buf0) s0) = Inr () \<and>
      map_of (sounds (snd (load_sound name0 info0 time0 (Decoded buf0) s0))) name0
        = Some (length (sound_heap s0)) \<and>
      sound_heap (snd (load_sound name0 info0 time0 (Decoded buf0) s0)) ! length (sound_heap s0)
        = \<lparr>buffer = buf0, maxSources = info_maxSources info0,
           baseVolume = info_baseVolume info0, instances = []\<rparr>"
    by (simp add: load_sound_decoded set_sound_lookup) (simp add: set_sound_def)
  have many: "(\<exists>pre post. fst r = Inl (Error (pre @ url @ post))) \<and>
      snd r = settle_all finished s \<and>
      (\<forall>l \<in> set finished. \<forall>buf. load_result l = Decoded buf \<longrightarrow>
         (\<exists>sid. map_of (sounds (snd r)) (load_name l) = Some sid \<and>
            length (sound_heap s) \<le> sid \<and> sid < length (sound_heap (snd r)) \<and>
            sound_heap (snd r) ! sid =
              \<lparr>buffer = buf, maxSources = info_maxSources (load_info l),
               baseVolume = info_baseVolume (load_info l), instances = []\<rparr>)) \<and>
      (\<forall>name. name \<notin> load_name ` set finished \<longrightarrow>
         map_of (sounds (snd r)) name = map_of (sounds s) name)"
    unfolding st using e settle_all_stored [OF assms(4)] settle_all_other st by fastforce
  show ?thesis
    using many one by blast
qed

text \<open>
  \<^verbatim>\<open>click\<close> is decoded first, then the response for \<^verbatim>\<open>music\<close> comes back with
  status text \<^verbatim>\<open>Not Found\<close>: the call is rejected with the URL
  \<^verbatim>\<open>./sounds/music.mp3\<close> in its message, and \<^verbatim>\<open>click\<close> is in the table.
\<close>

theorem asyncLoadSounds_partial_witness:
  "ac ready \<noteq> None \<and>
   fst (asyncLoadSounds
     [\<lparr>load_name = ''click'', load_info = click_info, load_time = [],
        load_result = Decoded click_buffer\<rparr>,
      \<lparr>load_name = ''music'', load_info = music_info, load_time = [],
        load_result = ResponseNotOk ''Not Found''\<rparr>] ready)
     = Inl (Error (''Error loading sound file '' @ [CHR 0x22] @ ''./sounds/music.mp3''
          @ [CHR 0x22] @ '', Error: Not Found'')) \<and>
   (\<exists>sid. map_of (sounds (snd (asyncLoadSounds
     [\<lparr>load_name = ''click'', load_info = click_info, load_time = [],
        load_result = Decoded click_buffer\<rparr>,
      \<lparr>load_name = ''music'', load_info = music_info, load_time = [],
        load_result = ResponseNotOk ''Not Found''\<rparr>] ready))) ''click'' = Some sid \<and>
      sound_heap (snd (asyncLoadSounds
     [\<lparr>load_name = ''click'', load_info = click_info, load_time = [],
        load_result = Decoded click_buffer\<rparr>,
      \<lparr>load_name = ''music'', load_info = music_info, load_time = [],
        load_result = ResponseNotOk ''Not Found''\<rparr>] ready)) ! sid
       = \<lparr>buffer = click_buffer, maxSources = 1, baseVolume = 1, instances = []\<rparr>) \<and>
   map_of (sounds (snd (asyncLoadSounds
     [\<lparr>load_name = ''click'', load_info = click_info, load_time = [],
        load_result = Decoded click_buffer\<rparr>,
      \<lparr>load_name = ''music'', load_info = music_info, load_time = [],
        load_result = ResponseNotOk ''Not Found''\<rparr>] ready))) ''music'' = None"
proof -
  let ?c = "\<lparr>load_name = ''click'', load_info = click_info, load_time = [],
    load_result = Decoded click_buffer\<rparr>"
  let ?m = "\<lparr>load_name = ''music'', load_info = music_info, load_time = [],
    load_result = ResponseNotOk ''Not Found''\<rparr>"
  have a: "ac ready \<noteq> None"
    by (simp add: ready_eq)
  have b: "\<forall>l \<in> set [?c]. \<exists>buf. load_result l = Decoded buf"
    and c: "\<forall>buf. load_result ?m \<noteq> Decoded buf"
    and d: "distinct (map load_name [?c])"
    by simp_all
  have e: "fst (asyncLoadSounds [?c, ?m] ready)
      = Inl (Error (''Error loading sound file '' @ [CHR 0x22] @ ''./sounds/music.mp3''
          @ [CHR 0x22] @ '', Error: Not Found''))"
    by (simp add: asyncLoadSounds_def getAudioContext_def ready_eq load_sound_def
        set_sound_def load_error_def sound_url_def soundDirectory_def preventCaching_def
        error_string_def music_info_def)
  have g: "map_of (sounds ready) ''music'' = None"
    by (simp add: ready_eq)
  have k: "info_maxSources click_info = 1 \<and> info_baseVolume click_info = 1"
    by (simp add: click_info_def)
  note T = asyncLoadSounds_partial [OF a b c d refl refl, where later = "[]"]
  note stored = T [THEN conjunct2, THEN conjunct2, THEN conjunct1, rule_format,
      of ?c click_buffer]
  note others = T [THEN conjunct2, THEN conjunct2, THEN conjunct2, THEN conjunct1,
      rule_format, of "''music''"]
  have t1: "\<exists>sid. map_of (sounds (snd (asyncLoadSounds [?c, ?m] ready))) ''click'' = Some sid \<and>
      sound_heap (snd (asyncLoadSounds [?c, ?m] ready)) ! sid
        = \<lparr>buffer = click_buffer, maxSources = 1, baseVolume = 1, instances = []\<rparr>"
    using stored k by auto
  have t2: "map_of (sounds (snd (asyncLoadSounds [?c, ?m] ready))) ''music'' = None"
    using others g by simp
  show ?thesis
    using a e t1 t2 by blast
qed

subsection \<open>The life of an instance\<close>






subsection \<open>The gain of a new instance\<close>




end
